theory Spec2Isabelle
  imports Complex_Main
begin

section \<open>Configuration data (src/config/schema.ts)\<close>

text \<open>
  A string is a list of \<open>char\<close>, one per code unit. The program slices and trims
  header values only, which the platform decodes as Latin-1, one code unit below 256 per
  byte; every other string is copied or compared for equality.

  A command argument of the configuration is a string or a number, or an array of
  those; the number type is a parameter \<open>'n\<close> and its rendering \<open>String(x)\<close> is
  supplied by the platform.
\<close>

datatype 'n scalar = Str string | Num 'n

datatype 'n arg = Val "'n scalar" | Arr "'n scalar list"

text \<open>What the \<open>args\<close> key of the configuration file may hold before \<open>argsSchema\<close>.\<close>

datatype 'n raw_args = Absent | Single "'n scalar" | Listed "'n arg list"

definition argsSchema :: "'n raw_args \<Rightarrow> 'n arg list" where
  "argsSchema v = (case v of Absent \<Rightarrow> [] | Listed xs \<Rightarrow> xs | Single x \<Rightarrow> [Val x])"

record 'n Command =
  cwd :: string
  command :: string
  args :: "'n arg list"

datatype BearerSource = Header | Query

datatype LogLevel = Debug | Info | Warn | Error | Fatal

record 'n Route =
  "method" :: string
  path :: string
  bearerKey :: "string option"
  bearerSource :: BearerSource
  commands :: "'n Command list"
  timeoutMs :: nat
  includeLogsInResponse :: bool

record 'n Config =
  logLevel :: LogLevel
  host :: string
  port :: nat
  routes :: "'n Route list"

section \<open>The platform\<close>

text \<open>
  Three library functions that the program calls: \<open>String\<close> on a number,
  \<open>Date.toISOString\<close> on a clock reading in milliseconds, and \<open>new URL(input, base)\<close>,
  which throws (\<open>Inl\<close>, with the error) or gives a URL, of which the program reads the
  pathname and the search parameters.
\<close>

record 'n platform =
  numberToString :: "'n \<Rightarrow> string"
  toISOString :: "real \<Rightarrow> string"
  parseURL :: "string \<Rightarrow> string \<Rightarrow> string + string \<times> (string \<times> string) list"

section \<open>The command runner (src/core/runner.ts)\<close>

record CommandResult =
  r_cwd :: string
  r_command :: string
  r_args :: "string list"
  stdout :: string
  stderr :: string
  durationMs :: real
  startedAt :: string
  finishedAt :: string
  exitCode :: "int option"

definition String :: "'n platform \<Rightarrow> 'n scalar \<Rightarrow> string" where
  "String pf x = (case x of Str s \<Rightarrow> s | Num n \<Rightarrow> numberToString pf n)"

text \<open>\<open>normalizeArgs\<close>: the two nested loops pushing onto \<open>out\<close>.\<close>

fun push_all :: "'n platform \<Rightarrow> 'n scalar list \<Rightarrow> string list \<Rightarrow> string list" where
  "push_all pf [] out = out"
| "push_all pf (x # xs) out = push_all pf xs (out @ [String pf x])"

fun normalizeArgs_loop :: "'n platform \<Rightarrow> 'n arg list \<Rightarrow> string list \<Rightarrow> string list" where
  "normalizeArgs_loop pf [] out = out"
| "normalizeArgs_loop pf (a # rest) out =
     (case a of
        Arr xs \<Rightarrow> normalizeArgs_loop pf rest (push_all pf xs out)
      | Val x \<Rightarrow> normalizeArgs_loop pf rest (out @ [String pf x]))"

definition normalizeArgs :: "'n platform \<Rightarrow> 'n arg list \<Rightarrow> string list" where
  "normalizeArgs pf as = normalizeArgs_loop pf as []"

subsection \<open>Promises\<close>

text \<open>
  A promise is pending, fulfilled with a value or rejected with an error; \<open>resolve\<close> and
  \<open>reject\<close> act on a pending promise only. A promise that stays pending is one whose
  awaiting caller never resumes.
\<close>

datatype 'a promise = Pending | Fulfilled 'a | Rejected string

definition resolve :: "'a \<Rightarrow> 'a promise \<Rightarrow> 'a promise" where
  "resolve v p = (case p of Pending \<Rightarrow> Fulfilled v | _ \<Rightarrow> p)"

definition reject :: "string \<Rightarrow> 'a promise \<Rightarrow> 'a promise" where
  "reject e p = (case p of Pending \<Rightarrow> Rejected e | _ \<Rightarrow> p)"

subsection \<open>What the event loop delivers while a command is awaited\<close>

text \<open>
  \<open>StdoutData\<close>, \<open>StderrData\<close>: a chunk on a pipe. \<open>Close code now\<close>: the child's
  \<open>close\<close> event, with the reading of the clock inside the handler. \<open>ErrorEv err now\<close>:
  the child's \<open>error\<close> event (a failure to start the executable that the platform
  reports by this event, as when the executable is not found).
  \<open>Abort\<close>: the chain's timer callback ran, \<open>controller.abort()\<close>.
  \<open>spawn\<close> itself either throws (the platform's check of its arguments, as for an
  empty executable name, or a failure to start the child that the platform reports by
  throwing) or returns a child.

  A \<open>step_env\<close> is what one call of \<open>runSingleCommand\<close> meets: the reading of the
  clock on entry, what \<open>spawn\<close> does, and the events that follow. No \<open>close\<close> and no
  \<open>error\<close> among them is a child that never exits.
\<close>

datatype event =
    StdoutData string
  | StderrData string
  | Close "int option" real
  | ErrorEv string real
  | Abort

datatype spawn_outcome = SpawnThrows string | Spawned "event list"

record step_env =
  clock :: real
  spawned :: spawn_outcome

record exec_state =
  out_buf :: string
  err_buf :: string
  kill_sent :: bool
  settled :: "CommandResult promise"

definition mk_result ::
  "'n platform \<Rightarrow> 'n Command \<Rightarrow> string list \<Rightarrow> real \<Rightarrow> exec_state \<Rightarrow> real \<Rightarrow> int option
    \<Rightarrow> CommandResult" where
  "mk_result pf cmd as startTs s endTs code =
     \<lparr> r_cwd = cwd cmd, r_command = command cmd, r_args = as,
       stdout = out_buf s, stderr = err_buf s,
       durationMs = endTs - startTs,
       startedAt = toISOString pf startTs, finishedAt = toISOString pf endTs,
       exitCode = code \<rparr>"

text \<open>The handlers that \<open>runSingleCommand\<close> registers, one equation each.\<close>

fun on_event ::
  "'n platform \<Rightarrow> 'n Command \<Rightarrow> string list \<Rightarrow> real \<Rightarrow> event \<Rightarrow> exec_state \<Rightarrow> exec_state" where
  "on_event pf cmd as startTs (StdoutData chunk) s = s\<lparr>out_buf := out_buf s @ chunk\<rparr>"
| "on_event pf cmd as startTs (StderrData chunk) s = s\<lparr>err_buf := err_buf s @ chunk\<rparr>"
| "on_event pf cmd as startTs (Close code now) s =
     s\<lparr>settled := resolve (mk_result pf cmd as startTs s now code) (settled s)\<rparr>"
| "on_event pf cmd as startTs (ErrorEv err now) s =
     s\<lparr>settled := reject err (resolve (mk_result pf cmd as startTs s now None) (settled s))\<rparr>"
| "on_event pf cmd as startTs Abort s = s\<lparr>kill_sent := True\<rparr>"

text \<open>
  Events are handled in order until the promise settles: the awaiting caller resumes
  right after the settling handler, before the event loop delivers anything else.
\<close>

fun deliver ::
  "'n platform \<Rightarrow> 'n Command \<Rightarrow> string list \<Rightarrow> real \<Rightarrow> event list \<Rightarrow> exec_state \<Rightarrow> exec_state" where
  "deliver pf cmd as startTs [] s = s"
| "deliver pf cmd as startTs (e # es) s =
     (if settled s = Pending then deliver pf cmd as startTs es (on_event pf cmd as startTs e s)
      else s)"

definition runSingleCommand :: "'n platform \<Rightarrow> 'n Command \<Rightarrow> step_env \<Rightarrow> exec_state" where
  "runSingleCommand pf cmd env =
     (let startTs = clock env; as = normalizeArgs pf (args cmd);
          s0 = \<lparr> out_buf = [], err_buf = [], kill_sent = False, settled = Pending \<rparr>
      in case spawned env of
           SpawnThrows err \<Rightarrow> s0\<lparr>settled := Rejected err\<rparr>
         | Spawned evs \<Rightarrow> deliver pf cmd as startTs evs s0)"

subsection \<open>The chain\<close>

record ChainResult =
  results :: "CommandResult list"
  timedOut :: bool

text \<open>
  What a run does to the outside, in order: \<open>setTimeout\<close> with the chain's timeout,
  each call of \<open>spawn\<close> (executable, arguments, working directory), each
  \<open>proc.kill('SIGTERM')\<close> (by the index of the step whose listener sends it), each
  call \<open>onCommandResult?.(result)\<close>, and \<open>clearTimeout\<close>.
\<close>

datatype effect =
    SetTimeout nat
  | SpawnCall string "string list" string
  | Kill nat
  | OnCommandResult CommandResult
  | ClearTimeout

record chain_run =
  returned :: "ChainResult promise"
  effects :: "effect list"

text \<open>
  The effects of awaiting step \<open>i\<close>: the call of \<open>spawn\<close>, and, when the timer fired
  meanwhile, the \<open>SIGTERM\<close> that every listener registered so far sends to its child.
\<close>

definition step_effects :: "'n platform \<Rightarrow> nat \<Rightarrow> 'n Command \<Rightarrow> exec_state \<Rightarrow> effect list" where
  "step_effects pf i cmd s =
     SpawnCall (command cmd) (normalizeArgs pf (args cmd)) (cwd cmd)
       # (if kill_sent s then map Kill [0..<Suc i] else [])"

text \<open>
  The \<open>for\<close> loop of \<open>runCommands\<close>. \<open>i\<close> is the index of the next command,
  \<open>rs\<close> the results pushed so far, \<open>ab\<close> the flag \<open>controller.signal.aborted\<close>.
  The world gives, for each step, what its await would meet.
\<close>

fun runCommands_loop ::
  "'n platform \<Rightarrow> (nat \<Rightarrow> step_env) \<Rightarrow> nat \<Rightarrow> 'n Command list \<Rightarrow> CommandResult list \<Rightarrow> bool
    \<Rightarrow> effect list \<Rightarrow> chain_run" where
  "runCommands_loop pf w i [] rs ab tr =
     \<lparr> returned = Fulfilled \<lparr> results = rs, timedOut = ab \<rparr>, effects = tr @ [ClearTimeout] \<rparr>"
| "runCommands_loop pf w i (cmd # rest) rs ab tr =
     (if ab then
        \<lparr> returned = Fulfilled \<lparr> results = rs, timedOut = ab \<rparr>, effects = tr @ [ClearTimeout] \<rparr>
      else
        let s = runSingleCommand pf cmd (w i);
            tr1 = tr @ step_effects pf i cmd s
        in case settled s of
             Pending \<Rightarrow> \<lparr> returned = Pending, effects = tr1 \<rparr>
           | Rejected err \<Rightarrow> \<lparr> returned = Rejected err, effects = tr1 @ [ClearTimeout] \<rparr>
           | Fulfilled result \<Rightarrow>
               let rs' = rs @ [result];
                   tr2 = tr1 @ [OnCommandResult result];
                   ab' = kill_sent s
               in if exitCode result \<noteq> Some 0 \<or> ab' then
                    \<lparr> returned = Fulfilled \<lparr> results = rs', timedOut = ab' \<rparr>,
                      effects = tr2 @ [ClearTimeout] \<rparr>
                  else runCommands_loop pf w (Suc i) rest rs' ab' tr2)"

definition runCommands ::
  "'n platform \<Rightarrow> (nat \<Rightarrow> step_env) \<Rightarrow> 'n Command list \<Rightarrow> nat \<Rightarrow> chain_run" where
  "runCommands pf w cmds timeout = runCommands_loop pf w 0 cmds [] False [SetTimeout timeout]"

subsection \<open>Vocabulary for statements about a chain run\<close>

definition settling :: "event \<Rightarrow> bool" where
  "settling e = (case e of Close code now \<Rightarrow> True | ErrorEv err now \<Rightarrow> True | _ \<Rightarrow> False)"

text \<open>The child is started and its \<open>close\<close> or \<open>error\<close> event does come.\<close>

definition exits :: "step_env \<Rightarrow> bool" where
  "exits env = (case spawned env of SpawnThrows err \<Rightarrow> False | Spawned evs \<Rightarrow> list_ex settling evs)"

fun all_exit :: "(nat \<Rightarrow> step_env) \<Rightarrow> nat \<Rightarrow> 'c list \<Rightarrow> bool" where
  "all_exit w i [] = True"
| "all_exit w i (c # cs) = (exits (w i) \<and> all_exit w (Suc i) cs)"

text \<open>
  The child is started and the first of its \<open>close\<close> and \<open>error\<close> events is
  \<open>error\<close>: the executable could not be launched, and the platform says so by the
  event.
\<close>

fun error_first :: "event list \<Rightarrow> bool" where
  "error_first [] = False"
| "error_first (ErrorEv err now # es) = True"
| "error_first (Close code now # es) = False"
| "error_first (e # es) = error_first es"

definition launch_fails :: "step_env \<Rightarrow> bool" where
  "launch_fails env = (case spawned env of SpawnThrows err \<Rightarrow> False | Spawned evs \<Rightarrow> error_first evs)"

text \<open>
  The child is started and the timer fires while it runs: \<open>Abort\<close> comes before the
  child's \<open>close\<close> and \<open>error\<close> events, if any.
\<close>

fun abort_first :: "event list \<Rightarrow> bool" where
  "abort_first [] = False"
| "abort_first (Abort # es) = True"
| "abort_first (Close code now # es) = False"
| "abort_first (ErrorEv err now # es) = False"
| "abort_first (e # es) = abort_first es"

definition fires_during :: "step_env \<Rightarrow> bool" where
  "fires_during env = (case spawned env of SpawnThrows err \<Rightarrow> False | Spawned evs \<Rightarrow> abort_first evs)"

text \<open>Step \<open>i\<close> exits with code 0 and the timer has not fired when it returns.\<close>

definition clean_step :: "'n platform \<Rightarrow> (nat \<Rightarrow> step_env) \<Rightarrow> nat \<Rightarrow> 'n Command \<Rightarrow> bool" where
  "clean_step pf w i cmd =
     (let s = runSingleCommand pf cmd (w i)
      in case settled s of
           Fulfilled r \<Rightarrow> exitCode r = Some 0 \<and> \<not> kill_sent s
         | _ \<Rightarrow> False)"

fun all_clean :: "'n platform \<Rightarrow> (nat \<Rightarrow> step_env) \<Rightarrow> nat \<Rightarrow> 'n Command list \<Rightarrow> bool" where
  "all_clean pf w i [] = True"
| "all_clean pf w i (c # cs) = (clean_step pf w i c \<and> all_clean pf w (Suc i) cs)"

text \<open>Step \<open>i\<close> returns a result whose exit code is not 0 (a number other than 0, or null).\<close>

definition failing_step :: "'n platform \<Rightarrow> (nat \<Rightarrow> step_env) \<Rightarrow> nat \<Rightarrow> 'n Command \<Rightarrow> bool" where
  "failing_step pf w i cmd =
     (case settled (runSingleCommand pf cmd (w i)) of
        Fulfilled r \<Rightarrow> exitCode r \<noteq> Some 0
      | _ \<Rightarrow> False)"

definition is_spawn :: "effect \<Rightarrow> bool" where
  "is_spawn e = (case e of SpawnCall c as d \<Rightarrow> True | _ \<Rightarrow> False)"

definition is_kill :: "effect \<Rightarrow> bool" where
  "is_kill e = (case e of Kill j \<Rightarrow> True | _ \<Rightarrow> False)"

definition spawn_of :: "'n platform \<Rightarrow> 'n Command \<Rightarrow> effect" where
  "spawn_of pf cmd = SpawnCall (command cmd) (normalizeArgs pf (args cmd)) (cwd cmd)"

text \<open>What a result echoes of its command, and the same triple of a command.\<close>

definition echo :: "CommandResult \<Rightarrow> string \<times> string \<times> string list" where
  "echo r = (r_cwd r, r_command r, r_args r)"

definition spec_of :: "'n platform \<Rightarrow> 'n Command \<Rightarrow> string \<times> string \<times> string list" where
  "spec_of pf cmd = (cwd cmd, command cmd, normalizeArgs pf (args cmd))"

definition successes :: "CommandResult list \<Rightarrow> nat" where
  "successes rs = length (filter (\<lambda>r. exitCode r = Some 0) rs)"

section \<open>The request dispatcher (src/transport/server.ts)\<close>

text \<open>
  What the listener reads of the incoming message: \<open>req.method\<close>, \<open>req.url\<close>,
  \<open>req.headers.host\<close> and \<open>req.headers.authorization\<close>, each of which may be
  undefined.
\<close>

record IncomingMessage =
  im_method :: "string option"
  im_url :: "string option"
  im_host :: "string option"
  im_authorization :: "string option"

text \<open>
  The request once \<open>new URL\<close> has returned: the method, the pathname and the search
  parameters of the URL (in order, so that \<open>get\<close> is the first binding of a name), and
  the \<open>authorization\<close> header. The logger is a sink outside the program's control flow:
  the debug line per command and the access log after each response are left out.
\<close>

record Request =
  req_method :: "string option"
  pathname :: string
  searchParams :: "(string \<times> string) list"
  authorization :: "string option"

datatype json =
    JNull
  | JBool bool
  | JNum real
  | JStr string
  | JArr "json list"
  | JObj "(string \<times> json) list"

record Response =
  status :: nat
  contentType :: "string option"
  payload :: "json option"

text \<open>The two clock readings of \<open>runRoute\<close> and the world its chain runs in.\<close>

record 'w req_env =
  startClock :: real
  endClock :: real
  world :: 'w

definition findRoute :: "'n Config \<Rightarrow> string \<Rightarrow> string \<Rightarrow> 'n Route option" where
  "findRoute cfg m p = find (\<lambda>r. method r = m \<and> path r = p) (routes cfg)"

text \<open>
  \<open>String.prototype.trim\<close> on a header value. Header values are decoded as Latin-1, one
  \<open>char\<close> per code unit; the white space and line terminators below 256 are these seven.
\<close>

definition is_ws :: "char \<Rightarrow> bool" where
  "is_ws c = (of_char c \<in> {9, 10, 11, 12, 13, 32, 160 :: nat})"

definition trim :: "string \<Rightarrow> string" where
  "trim s = rev (dropWhile is_ws (rev (dropWhile is_ws s)))"

definition startsWith :: "string \<Rightarrow> string \<Rightarrow> bool" where
  "startsWith s p = (take (length p) s = p)"

definition getBearerToken :: "Request \<Rightarrow> 'n Route \<Rightarrow> string option" where
  "getBearerToken req route =
     (if bearerSource route = Query then
        (case map_of (searchParams req) ''bearer'' of
           Some v \<Rightarrow> Some v
         | None \<Rightarrow> (case map_of (searchParams req) ''token'' of Some v \<Rightarrow> Some v | None \<Rightarrow> None))
      else
        (case authorization req of
           None \<Rightarrow> None
         | Some auth \<Rightarrow>
             if auth = [] \<or> \<not> startsWith auth ''Bearer '' then None
             else (let t = trim (drop 7 auth) in if t = [] then None else Some t)))"

definition sendEmpty :: "nat \<Rightarrow> Response" where
  "sendEmpty statusCode = \<lparr> status = statusCode, contentType = None, payload = None \<rparr>"

definition sendJson :: "nat \<Rightarrow> json \<Rightarrow> Response" where
  "sendJson statusCode body =
     \<lparr> status = statusCode, contentType = Some ''application/json'', payload = Some body \<rparr>"

definition commandLog :: "CommandResult \<Rightarrow> json" where
  "commandLog r =
     JObj [(''cwd'', JStr (r_cwd r)), (''command'', JStr (r_command r)),
           (''args'', JArr (map JStr (r_args r))),
           (''stdout'', JStr (stdout r)), (''stderr'', JStr (stderr r)),
           (''durationMs'', JNum (durationMs r))]"

definition route_body ::
  "'n platform \<Rightarrow> real \<Rightarrow> real \<Rightarrow> 'n Route \<Rightarrow> ChainResult \<Rightarrow> (string \<times> json) list" where
  "route_body pf startTs endTs route cr =
     [(''startedAt'', JStr (toISOString pf startTs)),
      (''finishedAt'', JStr (toISOString pf endTs)),
      (''durationMs'', JNum (endTs - startTs)),
      (''totalCommands'', JNum (real (length (commands route)))),
      (''successCount'', JNum (real (length (filter (\<lambda>r. exitCode r = Some 0) (results cr))))),
      (''timedOut'', JBool (timedOut cr))]
     @ (if includeLogsInResponse route
        then [(''commandLogs'', JArr (map commandLog (results cr)))] else [])"

definition runRoute ::
  "'n platform \<Rightarrow> (nat \<Rightarrow> step_env) req_env \<Rightarrow> 'n Route \<Rightarrow> json promise" where
  "runRoute pf env route =
     (case returned (runCommands pf (world env) (commands route) (timeoutMs route)) of
        Pending \<Rightarrow> Pending
      | Rejected err \<Rightarrow> Rejected err
      | Fulfilled cr \<Rightarrow> Fulfilled (JObj (route_body pf (startClock env) (endClock env) route cr)))"

text \<open>
  The \<open>then\<close> and \<open>catch\<close> callbacks on the promise of \<open>runRoute\<close>. \<open>None\<close>: the
  promise never settles and no response is sent.
\<close>

definition respond :: "json promise \<Rightarrow> Response option" where
  "respond p =
     (case p of
        Fulfilled body \<Rightarrow> Some (sendJson 200 body)
      | Rejected err \<Rightarrow> Some (sendJson 500 (JObj [(''error'', JStr ''Internal Server Error'')]))
      | Pending \<Rightarrow> None)"

text \<open>
  The \<open>end\<close> handler of the request listener from the route lookup on, for a request
  whose URL is parsed. \<open>getBearerToken\<close> builds the URL a second time from the same
  \<open>req.url\<close> and host, with the same result.
\<close>

definition requestListener ::
  "'n platform \<Rightarrow> 'n Config \<Rightarrow> (nat \<Rightarrow> step_env) req_env \<Rightarrow> Request \<Rightarrow> Response option" where
  "requestListener pf cfg env req =
     (let m = (case req_method req of None \<Rightarrow> ''GET'' | Some m \<Rightarrow> m);
          p = pathname req
      in case findRoute cfg m p of
           None \<Rightarrow> Some (sendEmpty 404)
         | Some route \<Rightarrow>
             if (bearerKey route \<noteq> None \<and> bearerKey route \<noteq> Some [])
                \<and> getBearerToken req route \<noteq> bearerKey route
             then Some (sendEmpty 403)
             else respond (runRoute pf env route))"

text \<open>
  The whole \<open>end\<close> handler. It builds the URL first, outside any \<open>try\<close>: when
  \<open>new URL\<close> throws, the error leaves the handler uncaught and the handler sends no
  response.
\<close>

datatype handled = Uncaught string | Handled "Response option"

definition request_of :: "IncomingMessage \<Rightarrow> string \<times> (string \<times> string) list \<Rightarrow> Request" where
  "request_of msg u =
     \<lparr> req_method = im_method msg, pathname = fst u, searchParams = snd u,
       authorization = im_authorization msg \<rparr>"

definition createRequestListener ::
  "'n platform \<Rightarrow> 'n Config \<Rightarrow> (nat \<Rightarrow> step_env) req_env \<Rightarrow> IncomingMessage \<Rightarrow> handled" where
  "createRequestListener pf cfg env msg =
     (case parseURL pf (case im_url msg of None \<Rightarrow> [] | Some u \<Rightarrow> u)
             (''http://'' @ (case im_host msg of None \<Rightarrow> ''undefined'' | Some h \<Rightarrow> h)) of
        Inl err \<Rightarrow> Uncaught err
      | Inr u \<Rightarrow> Handled (requestListener pf cfg env (request_of msg u)))"

definition field :: "json \<Rightarrow> string \<Rightarrow> json option" where
  "field j k = (case j of JObj kvs \<Rightarrow> map_of kvs k | _ \<Rightarrow> None)"

definition keys :: "json \<Rightarrow> string list" where
  "keys j = (case j of JObj kvs \<Rightarrow> map fst kvs | _ \<Rightarrow> [])"

text \<open>
  The token as the specification words it, to compare with \<open>getBearerToken\<close>: for the
  source \<open>query\<close>, the first present of the parameters \<open>bearer\<close> and \<open>token\<close>; for the
  source \<open>header\<close>, the \<open>Authorization\<close> value with its prefix \<open>Bearer \<close> removed and
  the remainder trimmed, an empty remainder being no token.
\<close>

definition spec_token :: "BearerSource \<Rightarrow> (string \<times> string) list \<Rightarrow> string option \<Rightarrow> string option" where
  "spec_token src query auth =
     (case src of
        Query \<Rightarrow> (case map_of query ''bearer'' of Some v \<Rightarrow> Some v | None \<Rightarrow> map_of query ''token'')
      | Header \<Rightarrow>
          (case auth of
             None \<Rightarrow> None
           | Some a \<Rightarrow>
               if take 7 a = ''Bearer '' \<and> trim (drop 7 a) \<noteq> [] then Some (trim (drop 7 a))
               else None))"

section \<open>Concrete scenarios\<close>

text \<open>
  A platform, commands and worlds on which the definitions are run. The platform of the
  scenarios has the natural numbers for numbers, rendered in decimal, and renders the
  instants of the first second after the epoch, which are all that the scenarios read.
  Of the URL parser the scenarios need its failure on the target \<open>//\<close>, which has no
  host, and the split of one target that has a query; their other targets are plain
  paths.
\<close>

fun show_nat :: "nat \<Rightarrow> string" where
  "show_nat n =
     (if n < 10 then [''0123456789'' ! n]
      else show_nat (n div 10) @ [''0123456789'' ! (n mod 10)])"

definition pad3 :: "nat \<Rightarrow> string" where
  "pad3 n = (if n < 10 then ''00'' @ show_nat n
             else if n < 100 then ''0'' @ show_nat n else show_nat n)"

definition iso0 :: "real \<Rightarrow> string" where
  "iso0 t = ''1970-01-01T00:00:00.'' @ pad3 (nat \<lfloor>t\<rfloor> mod 1000) @ ''Z''"

definition url0 :: "string \<Rightarrow> string \<Rightarrow> string + string \<times> (string \<times> string) list" where
  "url0 input base =
     (if input = ''//'' then Inl ''TypeError: Invalid URL''
      else if input = ''/webhook/?bearer=secret123''
      then Inr (''/webhook/'', [(''bearer'', ''secret123'')])
      else Inr (input, []))"

definition pf0 :: "nat platform" where
  "pf0 = \<lparr> numberToString = show_nat, toISOString = iso0, parseURL = url0 \<rparr>"

definition echo_cmd :: "nat Command" where
  "echo_cmd = \<lparr> cwd = ''.'', command = ''echo'', args = [Val (Str ''ok'')] \<rparr>"

definition false_cmd :: "nat Command" where
  "false_cmd = \<lparr> cwd = ''.'', command = ''false'', args = [] \<rparr>"

definition sleep_cmd :: "nat Command" where
  "sleep_cmd = \<lparr> cwd = ''.'', command = ''sleep'', args = [Arr [Num 5]] \<rparr>"

definition empty_cmd :: "nat Command" where
  "empty_cmd = \<lparr> cwd = ''.'', command = [], args = [] \<rparr>"

definition missing_cmd :: "nat Command" where
  "missing_cmd = \<lparr> cwd = ''.'', command = ''nonexistentcommand12345'', args = [] \<rparr>"

text \<open>The child prints and exits with code 0.\<close>

definition env_ok :: step_env where
  "env_ok = \<lparr> clock = 0, spawned = Spawned [StdoutData ''ok'', Close (Some 0) 10] \<rparr>"

text \<open>The child exits with code 1.\<close>

definition env_exit1 :: step_env where
  "env_exit1 = \<lparr> clock = 0, spawned = Spawned [Close (Some 1) 12] \<rparr>"

text \<open>The timer fires while the child runs; the child then dies of the signal.\<close>

definition env_killed :: step_env where
  "env_killed = \<lparr> clock = 0, spawned = Spawned [Abort, Close None 230] \<rparr>"

text \<open>The executable is not found: \<open>error\<close>, then \<open>close\<close> with the negative errno.\<close>

definition env_enoent :: step_env where
  "env_enoent = \<lparr> clock = 0, spawned = Spawned [ErrorEv ''ENOENT'' 15, Close (Some (- 2)) 16] \<rparr>"

text \<open>The timer fires and the child never exits.\<close>

definition env_hang :: step_env where
  "env_hang = \<lparr> clock = 0, spawned = Spawned [Abort] \<rparr>"

text \<open>\<open>spawn\<close> throws on the empty executable name.\<close>

definition env_throws :: step_env where
  "env_throws = \<lparr> clock = 0, spawned = SpawnThrows ''ERR_INVALID_ARG_VALUE'' \<rparr>"

definition w_exit1 :: "nat \<Rightarrow> step_env" where
  "w_exit1 i = env_exit1"

definition w_ok_then_exit1 :: "nat \<Rightarrow> step_env" where
  "w_ok_then_exit1 i = (if i = 1 then env_exit1 else env_ok)"

definition w_killed :: "nat \<Rightarrow> step_env" where
  "w_killed i = env_killed"

definition w_ok_then_enoent :: "nat \<Rightarrow> step_env" where
  "w_ok_then_enoent i = (if i = 1 then env_enoent else env_ok)"

definition w_ok :: "nat \<Rightarrow> step_env" where
  "w_ok i = env_ok"

definition w_hang :: "nat \<Rightarrow> step_env" where
  "w_hang i = env_hang"

definition w_ok_then_throws :: "nat \<Rightarrow> step_env" where
  "w_ok_then_throws i = (if i = 1 then env_throws else env_ok)"

definition w_ok_then_killed :: "nat \<Rightarrow> step_env" where
  "w_ok_then_killed i = (if i = 1 then env_killed else env_ok)"

definition res_ok :: CommandResult where
  "res_ok = \<lparr> r_cwd = ''.'', r_command = ''echo'', r_args = [''ok''], stdout = ''ok'',
              stderr = [], durationMs = 10, startedAt = ''1970-01-01T00:00:00.000Z'',
              finishedAt = ''1970-01-01T00:00:00.010Z'', exitCode = Some 0 \<rparr>"

definition res_exit1 :: CommandResult where
  "res_exit1 = \<lparr> r_cwd = ''.'', r_command = ''false'', r_args = [], stdout = [],
              stderr = [], durationMs = 12, startedAt = ''1970-01-01T00:00:00.000Z'',
              finishedAt = ''1970-01-01T00:00:00.012Z'', exitCode = Some 1 \<rparr>"

definition res_killed :: CommandResult where
  "res_killed = \<lparr> r_cwd = ''.'', r_command = ''sleep'', r_args = [''5''], stdout = [],
              stderr = [], durationMs = 230, startedAt = ''1970-01-01T00:00:00.000Z'',
              finishedAt = ''1970-01-01T00:00:00.230Z'', exitCode = None \<rparr>"

definition res_enoent :: CommandResult where
  "res_enoent = \<lparr> r_cwd = ''.'', r_command = ''nonexistentcommand12345'', r_args = [],
              stdout = [], stderr = [], durationMs = 15,
              startedAt = ''1970-01-01T00:00:00.000Z'',
              finishedAt = ''1970-01-01T00:00:00.015Z'', exitCode = None \<rparr>"

text \<open>A configuration after the fixture of the server tests, and requests to it.\<close>

definition route_webhook :: "nat Route" where
  "route_webhook = \<lparr> method = ''POST'', path = ''/webhook'', bearerKey = None,
       bearerSource = Header, commands = [echo_cmd], timeoutMs = 5000,
       includeLogsInResponse = True \<rparr>"

definition route_secure :: "nat Route" where
  "route_secure = \<lparr> method = ''POST'', path = ''/secure'', bearerKey = Some ''secret123'',
       bearerSource = Header, commands = [echo_cmd], timeoutMs = 5000,
       includeLogsInResponse = False \<rparr>"

definition route_query :: "nat Route" where
  "route_query = \<lparr> method = ''GET'', path = ''/query-auth'', bearerKey = Some ''query-secret'',
       bearerSource = Query, commands = [echo_cmd], timeoutMs = 5000,
       includeLogsInResponse = False \<rparr>"

definition route_slow :: "nat Route" where
  "route_slow = \<lparr> method = ''GET'', path = ''/slow'', bearerKey = None,
       bearerSource = Header, commands = [sleep_cmd], timeoutMs = 200,
       includeLogsInResponse = False \<rparr>"

definition route_deploy :: "nat Route" where
  "route_deploy = \<lparr> method = ''POST'', path = ''/deploy'', bearerKey = Some [],
       bearerSource = Header, commands = [echo_cmd, missing_cmd, echo_cmd], timeoutMs = 5000,
       includeLogsInResponse = True \<rparr>"

definition route_broken :: "nat Route" where
  "route_broken = \<lparr> method = ''POST'', path = ''/broken'', bearerKey = None,
       bearerSource = Header, commands = [echo_cmd, empty_cmd, echo_cmd], timeoutMs = 5000,
       includeLogsInResponse = False \<rparr>"

definition route_nightly :: "nat Route" where
  "route_nightly = \<lparr> method = ''POST'', path = ''/nightly'', bearerKey = None,
       bearerSource = Header, commands = [echo_cmd, sleep_cmd, echo_cmd], timeoutMs = 200,
       includeLogsInResponse = False \<rparr>"

definition cfg0 :: "nat Config" where
  "cfg0 = \<lparr> logLevel = Info, host = ''127.0.0.1'', port = 3000,
       routes = [route_webhook, route_secure, route_query, route_slow, route_deploy,
                 route_broken, route_nightly] \<rparr>"

definition req_webhook :: Request where
  "req_webhook = \<lparr> req_method = Some ''POST'', pathname = ''/webhook'', searchParams = [],
       authorization = None \<rparr>"

definition req_slow :: Request where
  "req_slow = \<lparr> req_method = Some ''GET'', pathname = ''/slow'', searchParams = [],
       authorization = None \<rparr>"

definition req_deploy :: Request where
  "req_deploy = \<lparr> req_method = Some ''POST'', pathname = ''/deploy'', searchParams = [],
       authorization = None \<rparr>"

definition req_secure :: Request where
  "req_secure = \<lparr> req_method = Some ''POST'', pathname = ''/secure'', searchParams = [],
       authorization = Some ''Bearer  secret123 '' \<rparr>"

definition req_secure_lower :: Request where
  "req_secure_lower = \<lparr> req_method = Some ''POST'', pathname = ''/secure'', searchParams = [],
       authorization = Some ''bearer secret123'' \<rparr>"

definition req_query :: Request where
  "req_query = \<lparr> req_method = None, pathname = ''/query-auth'',
       searchParams = [(''token'', ''query-secret'')], authorization = None \<rparr>"

definition req_unknown :: Request where
  "req_unknown = \<lparr> req_method = Some ''POST'', pathname = ''/webhook/'',
       searchParams = [(''bearer'', ''secret123'')], authorization = Some ''Bearer secret123'' \<rparr>"

definition req_broken :: Request where
  "req_broken = \<lparr> req_method = Some ''POST'', pathname = ''/broken'', searchParams = [],
       authorization = None \<rparr>"

definition req_nightly :: Request where
  "req_nightly = \<lparr> req_method = Some ''POST'', pathname = ''/nightly'', searchParams = [],
       authorization = None \<rparr>"

definition msg_no_host :: IncomingMessage where
  "msg_no_host = \<lparr> im_method = Some ''POST'', im_url = Some ''//'',
       im_host = Some ''127.0.0.1:3000'', im_authorization = None \<rparr>"

definition msg_unknown :: IncomingMessage where
  "msg_unknown = \<lparr> im_method = Some ''POST'', im_url = Some ''/webhook/?bearer=secret123'',
       im_host = Some ''127.0.0.1:3000'', im_authorization = Some ''Bearer secret123'' \<rparr>"

definition msg_webhook :: IncomingMessage where
  "msg_webhook = \<lparr> im_method = Some ''POST'', im_url = Some ''/webhook'',
       im_host = Some ''127.0.0.1:3000'', im_authorization = None \<rparr>"

definition env_of :: "(nat \<Rightarrow> step_env) \<Rightarrow> (nat \<Rightarrow> step_env) req_env" where
  "env_of w = \<lparr> startClock = 0, endClock = 240, world = w \<rparr>"

section \<open>Argument normalization\<close>

declare show_nat.simps [simp del]

lemma push_all_eq: "push_all pf xs out = out @ map (String pf) xs"
  by (induction xs arbitrary: out) auto

lemma normalizeArgs_loop_eq:
  "normalizeArgs_loop pf as out =
     out @ concat (map (\<lambda>a. case a of Val x \<Rightarrow> [String pf x] | Arr xs \<Rightarrow> map (String pf) xs) as)"
  by (induction as arbitrary: out) (auto simp: push_all_eq split: arg.splits)

lemma normalizeArgs_loop_strings:
  "normalizeArgs_loop pf (map (\<lambda>s. Val (Str s)) ss) out = out @ ss"
  by (induction ss arbitrary: out) (auto simp: String_def)

text \<open>
  C9. Normalization yields the flat sequence obtained by stringifying every element and
  flattening one level of nesting; on a sequence that is already flat and made of
  strings it returns the same strings, also after \<open>argsSchema\<close>; a lone scalar of the
  configuration becomes a one-element sequence.
\<close>

theorem normalizeArgs_flat_stable:
  "normalizeArgs pf as =
     concat (map (\<lambda>a. case a of Val x \<Rightarrow> [String pf x] | Arr xs \<Rightarrow> map (String pf) xs) as)
   \<and> normalizeArgs pf (map (\<lambda>s. Val (Str s)) ss) = ss
   \<and> normalizeArgs pf (argsSchema (Listed (map (\<lambda>s. Val (Str s)) ss))) = ss
   \<and> normalizeArgs pf (argsSchema (Single x)) = [String pf x]
   \<and> normalizeArgs pf (argsSchema Absent) = []"
proof (intro conjI)
  show "normalizeArgs pf as =
     concat (map (\<lambda>a. case a of Val x \<Rightarrow> [String pf x] | Arr xs \<Rightarrow> map (String pf) xs) as)"
    by (simp add: normalizeArgs_def normalizeArgs_loop_eq)
  show "normalizeArgs pf (map (\<lambda>s. Val (Str s)) ss) = ss"
    by (simp add: normalizeArgs_def normalizeArgs_loop_strings)
  show "normalizeArgs pf (argsSchema (Listed (map (\<lambda>s. Val (Str s)) ss))) = ss"
    by (simp add: normalizeArgs_def normalizeArgs_loop_strings argsSchema_def)
  show "normalizeArgs pf (argsSchema (Single x)) = [String pf x]"
    by (simp add: normalizeArgs_def argsSchema_def)
  show "normalizeArgs pf (argsSchema Absent) = []"
    by (simp add: normalizeArgs_def argsSchema_def)
qed

section \<open>One awaited command\<close>

lemma deliver_settled_keep:
  "settled s \<noteq> Pending \<Longrightarrow> deliver pf cmd as t evs s = s"
  by (cases evs) auto

lemma on_event_not_rejected:
  "settled s = Pending \<Longrightarrow> settled (on_event pf cmd as t e s) \<noteq> Rejected err"
  by (cases e) (auto simp: resolve_def reject_def)

lemma deliver_not_rejected:
  "settled s = Pending \<Longrightarrow> settled (deliver pf cmd as t evs s) \<noteq> Rejected err"
proof (induction evs arbitrary: s)
  case Nil
  then show ?case by simp
next
  case (Cons e evs)
  show ?case
  proof (cases "settled (on_event pf cmd as t e s) = Pending")
    case True
    then show ?thesis using Cons by simp
  next
    case False
    then show ?thesis
      using Cons.prems on_event_not_rejected [of s pf cmd as t e err]
      by (simp add: deliver_settled_keep)
  qed
qed

lemma on_event_echo:
  "settled s = Pending \<Longrightarrow> settled (on_event pf cmd as t e s) = Fulfilled r
     \<Longrightarrow> echo r = (cwd cmd, command cmd, as)"
  by (cases e) (auto simp: resolve_def reject_def mk_result_def echo_def)

lemma deliver_echo:
  "settled s = Pending \<Longrightarrow> settled (deliver pf cmd as t evs s) = Fulfilled r
     \<Longrightarrow> echo r = (cwd cmd, command cmd, as)"
proof (induction evs arbitrary: s)
  case Nil
  then show ?case by simp
next
  case (Cons e evs)
  show ?case
  proof (cases "settled (on_event pf cmd as t e s) = Pending")
    case True
    then show ?thesis using Cons by simp
  next
    case False
    then show ?thesis
      using Cons.prems on_event_echo [of s pf cmd as t e r]
      by (simp add: deliver_settled_keep)
  qed
qed

lemma on_event_settling:
  "settled s = Pending \<Longrightarrow>
     (settled (on_event pf cmd as t e s) = Pending) = (\<not> settling e)"
  by (cases e) (auto simp: resolve_def reject_def settling_def)

lemma deliver_exits:
  "list_ex settling evs \<Longrightarrow> settled s = Pending
     \<Longrightarrow> \<exists>r. settled (deliver pf cmd as t evs s) = Fulfilled r"
proof (induction evs arbitrary: s)
  case Nil
  then show ?case by simp
next
  case (Cons e evs)
  show ?case
  proof (cases "settling e")
    case True
    then have np: "settled (on_event pf cmd as t e s) \<noteq> Pending"
      using Cons.prems(2) by (simp add: on_event_settling)
    moreover have "settled (on_event pf cmd as t e s) \<noteq> Rejected err" for err
      using Cons.prems(2) by (rule on_event_not_rejected)
    ultimately obtain r where "settled (on_event pf cmd as t e s) = Fulfilled r"
      by (cases "settled (on_event pf cmd as t e s)") auto
    then show ?thesis using Cons.prems(2) np by (simp add: deliver_settled_keep)
  next
    case False
    then have "settled (on_event pf cmd as t e s) = Pending"
      using Cons.prems(2) by (simp add: on_event_settling)
    moreover have "list_ex settling evs" using Cons.prems(1) False by simp
    ultimately show ?thesis using Cons.IH Cons.prems(2) by simp
  qed
qed

lemma deliver_error_first:
  "error_first evs \<Longrightarrow> settled s = Pending
     \<Longrightarrow> \<exists>r. settled (deliver pf cmd as t evs s) = Fulfilled r \<and> exitCode r = None"
proof (induction evs arbitrary: s rule: error_first.induct)
  case 1
  then show ?case by simp
next
  case (2 err now es)
  then show ?case
    by (simp add: resolve_def reject_def mk_result_def deliver_settled_keep)
next
  case (3 code now es)
  then show ?case by simp
qed (simp_all)

lemma rsc_rejected:
  "settled (runSingleCommand pf cmd env) = Rejected err \<Longrightarrow> spawned env = SpawnThrows err"
  by (auto simp: runSingleCommand_def Let_def deliver_not_rejected split: spawn_outcome.splits)

lemma rsc_throws:
  "spawned env = SpawnThrows err \<Longrightarrow>
     settled (runSingleCommand pf cmd env) = Rejected err \<and> \<not> kill_sent (runSingleCommand pf cmd env)"
  by (simp add: runSingleCommand_def Let_def)

lemma rsc_exits:
  "exits env \<Longrightarrow> \<exists>r. settled (runSingleCommand pf cmd env) = Fulfilled r"
  by (auto simp: runSingleCommand_def Let_def exits_def deliver_exits split: spawn_outcome.splits)

lemma rsc_echo:
  "settled (runSingleCommand pf cmd env) = Fulfilled r \<Longrightarrow> echo r = spec_of pf cmd"
  by (auto simp: runSingleCommand_def Let_def spec_of_def split: spawn_outcome.splits
      dest: deliver_echo [rotated])

lemma rsc_launch_fails:
  "launch_fails env \<Longrightarrow>
     \<exists>r. settled (runSingleCommand pf cmd env) = Fulfilled r \<and> exitCode r = None"
  by (auto simp: runSingleCommand_def Let_def launch_fails_def deliver_error_first
      split: spawn_outcome.splits)

section \<open>The chain loop\<close>

lemma is_kill_step_effects:
  "list_ex is_kill (step_effects pf i cmd s) = kill_sent s"
  by (auto simp: step_effects_def is_kill_def list_ex_iff)

lemma filter_spawn_step_effects:
  "filter is_spawn (step_effects pf i cmd s) = [spawn_of pf cmd]"
  by (auto simp: step_effects_def is_spawn_def spawn_of_def filter_empty_conv)

text \<open>One unfolding of the loop body, by what the awaited step does.\<close>

lemma loop_pending:
  "settled (runSingleCommand pf cmd (w i)) = Pending \<Longrightarrow>
   runCommands_loop pf w i (cmd # rest) rs False tr =
     \<lparr> returned = Pending,
       effects = tr @ step_effects pf i cmd (runSingleCommand pf cmd (w i)) \<rparr>"
  by (simp add: Let_def)

lemma loop_rejected:
  "settled (runSingleCommand pf cmd (w i)) = Rejected err \<Longrightarrow>
   runCommands_loop pf w i (cmd # rest) rs False tr =
     \<lparr> returned = Rejected err,
       effects = tr @ step_effects pf i cmd (runSingleCommand pf cmd (w i)) @ [ClearTimeout] \<rparr>"
  by (simp add: Let_def)

lemma loop_stop:
  "settled (runSingleCommand pf cmd (w i)) = Fulfilled r \<Longrightarrow>
   exitCode r \<noteq> Some 0 \<or> kill_sent (runSingleCommand pf cmd (w i)) \<Longrightarrow>
   runCommands_loop pf w i (cmd # rest) rs False tr =
     \<lparr> returned = Fulfilled \<lparr> results = rs @ [r],
                              timedOut = kill_sent (runSingleCommand pf cmd (w i)) \<rparr>,
       effects = tr @ step_effects pf i cmd (runSingleCommand pf cmd (w i))
                   @ [OnCommandResult r, ClearTimeout] \<rparr>"
  by (simp add: Let_def)

lemma loop_continue:
  "settled (runSingleCommand pf cmd (w i)) = Fulfilled r \<Longrightarrow>
   exitCode r = Some 0 \<Longrightarrow> \<not> kill_sent (runSingleCommand pf cmd (w i)) \<Longrightarrow>
   runCommands_loop pf w i (cmd # rest) rs False tr =
     runCommands_loop pf w (Suc i) rest (rs @ [r])  False
       (tr @ step_effects pf i cmd (runSingleCommand pf cmd (w i)) @ [OnCommandResult r])"
  by (simp add: Let_def)

declare runCommands_loop.simps(2) [simp del]

text \<open>The four cases, as an elimination rule.\<close>

lemma step_cases:
  obtains (pending) "settled (runSingleCommand pf cmd (w i)) = Pending"
  | (rejected) err where "settled (runSingleCommand pf cmd (w i)) = Rejected err"
  | (stop) r where "settled (runSingleCommand pf cmd (w i)) = Fulfilled r"
      "exitCode r \<noteq> Some 0 \<or> kill_sent (runSingleCommand pf cmd (w i))"
  | (continue) r where "settled (runSingleCommand pf cmd (w i)) = Fulfilled r"
      "exitCode r = Some 0" "\<not> kill_sent (runSingleCommand pf cmd (w i))"
  by (cases "settled (runSingleCommand pf cmd (w i))") auto

lemma clean_step_iff:
  "clean_step pf w i cmd =
     (\<exists>r. settled (runSingleCommand pf cmd (w i)) = Fulfilled r \<and> exitCode r = Some 0
         \<and> \<not> kill_sent (runSingleCommand pf cmd (w i)))"
  by (auto simp: clean_step_def Let_def split: promise.splits)

lemma failing_step_iff:
  "failing_step pf w i cmd =
     (\<exists>r. settled (runSingleCommand pf cmd (w i)) = Fulfilled r \<and> exitCode r \<noteq> Some 0)"
  by (auto simp: failing_step_def split: promise.splits)

lemma loop_shape:
  "returned (runCommands_loop pf w i cmds rs False tr) = Fulfilled cr \<Longrightarrow>
     \<exists>new. results cr = rs @ new \<and> length new \<le> length cmds
        \<and> (\<forall>r \<in> set (butlast new). exitCode r = Some 0)
        \<and> map echo new = map (spec_of pf) (take (length new) cmds)"
proof (induction cmds arbitrary: i rs tr)
  case Nil
  then show ?case by auto
next
  case (Cons cmd rest)
  show ?case
  proof (cases rule: step_cases [of pf cmd w i])
    case pending
    then show ?thesis using Cons.prems by (simp add: loop_pending)
  next
    case (rejected err)
    then show ?thesis using Cons.prems by (simp add: loop_rejected)
  next
    case (stop r)
    then have "results cr = rs @ [r]" using Cons.prems by (auto simp: loop_stop)
    moreover have "echo r = spec_of pf cmd" using stop(1) by (rule rsc_echo)
    ultimately show ?thesis by (intro exI [of _ "[r]"]) simp
  next
    case (continue r)
    then have "returned (runCommands_loop pf w (Suc i) rest (rs @ [r]) False
        (tr @ step_effects pf i cmd (runSingleCommand pf cmd (w i)) @ [OnCommandResult r]))
        = Fulfilled cr"
      using Cons.prems by (simp add: loop_continue)
    from Cons.IH [OF this] obtain new where new: "results cr = (rs @ [r]) @ new"
      "length new \<le> length rest" "\<forall>r \<in> set (butlast new). exitCode r = Some 0"
      "map echo new = map (spec_of pf) (take (length new) rest)" by blast
    have "echo r = spec_of pf cmd" using continue(1) by (rule rsc_echo)
    then show ?thesis using new continue(2)
      by (intro exI [of _ "r # new"]) (auto simp: butlast.simps)
  qed
qed

section \<open>The scenarios, run\<close>

lemma pf0_renders:
  "numberToString pf0 5 = ''5''"
  "toISOString pf0 0 = ''1970-01-01T00:00:00.000Z''"
  "toISOString pf0 10 = ''1970-01-01T00:00:00.010Z''"
  "toISOString pf0 12 = ''1970-01-01T00:00:00.012Z''"
  "toISOString pf0 15 = ''1970-01-01T00:00:00.015Z''"
  "toISOString pf0 230 = ''1970-01-01T00:00:00.230Z''"
  by (simp_all add: pf0_def iso0_def pad3_def show_nat.simps)

lemma rsc_ok:
  "runSingleCommand pf0 echo_cmd env_ok =
     \<lparr> out_buf = ''ok'', err_buf = [], kill_sent = False, settled = Fulfilled res_ok \<rparr>"
  by (simp add: runSingleCommand_def Let_def env_ok_def echo_cmd_def pf0_renders res_ok_def
      normalizeArgs_def String_def resolve_def mk_result_def)

lemma rsc_exit1:
  "runSingleCommand pf0 false_cmd env_exit1 =
     \<lparr> out_buf = [], err_buf = [], kill_sent = False, settled = Fulfilled res_exit1 \<rparr>"
  by (simp add: runSingleCommand_def Let_def env_exit1_def false_cmd_def pf0_renders
      res_exit1_def normalizeArgs_def String_def resolve_def mk_result_def)

lemma rsc_killed:
  "runSingleCommand pf0 sleep_cmd env_killed =
     \<lparr> out_buf = [], err_buf = [], kill_sent = True, settled = Fulfilled res_killed \<rparr>"
  by (simp add: runSingleCommand_def Let_def env_killed_def sleep_cmd_def pf0_renders
      res_killed_def normalizeArgs_def String_def resolve_def mk_result_def)

lemma rsc_enoent:
  "runSingleCommand pf0 missing_cmd env_enoent =
     \<lparr> out_buf = [], err_buf = [], kill_sent = False, settled = Fulfilled res_enoent \<rparr>"
  by (simp add: runSingleCommand_def Let_def env_enoent_def missing_cmd_def pf0_renders
      res_enoent_def normalizeArgs_def String_def resolve_def reject_def mk_result_def)

lemma run_exit1:
  "runCommands pf0 w_exit1 [false_cmd] 5000 =
     \<lparr> returned = Fulfilled \<lparr> results = [res_exit1], timedOut = False \<rparr>,
       effects = [SetTimeout 5000, SpawnCall ''false'' [] ''.'', OnCommandResult res_exit1,
                  ClearTimeout] \<rparr>"
  by (simp add: runCommands_def runCommands_loop.simps Let_def w_exit1_def rsc_exit1
      step_effects_def res_exit1_def)
    (simp add: false_cmd_def normalizeArgs_def)

lemma run_ok_then_exit1:
  "runCommands pf0 w_ok_then_exit1 [echo_cmd, false_cmd, echo_cmd] 5000 =
     \<lparr> returned = Fulfilled \<lparr> results = [res_ok, res_exit1], timedOut = False \<rparr>,
       effects = [SetTimeout 5000, SpawnCall ''echo'' [''ok''] ''.'', OnCommandResult res_ok,
                  SpawnCall ''false'' [] ''.'', OnCommandResult res_exit1, ClearTimeout] \<rparr>"
  by (simp add: runCommands_def runCommands_loop.simps Let_def w_ok_then_exit1_def
      rsc_ok rsc_exit1 step_effects_def res_exit1_def res_ok_def)
    (simp add: false_cmd_def echo_cmd_def normalizeArgs_def String_def)

lemma run_killed:
  "runCommands pf0 w_killed [sleep_cmd] 200 =
     \<lparr> returned = Fulfilled \<lparr> results = [res_killed], timedOut = True \<rparr>,
       effects = [SetTimeout 200, SpawnCall ''sleep'' [''5''] ''.'', Kill 0,
                  OnCommandResult res_killed, ClearTimeout] \<rparr>"
  by (simp add: runCommands_def runCommands_loop.simps Let_def w_killed_def
      rsc_killed step_effects_def)
    (simp add: sleep_cmd_def normalizeArgs_def String_def pf0_renders)

lemma run_ok_then_enoent:
  "runCommands pf0 w_ok_then_enoent [echo_cmd, missing_cmd, echo_cmd] 5000 =
     \<lparr> returned = Fulfilled \<lparr> results = [res_ok, res_enoent], timedOut = False \<rparr>,
       effects = [SetTimeout 5000, SpawnCall ''echo'' [''ok''] ''.'', OnCommandResult res_ok,
                  SpawnCall ''nonexistentcommand12345'' [] ''.'', OnCommandResult res_enoent,
                  ClearTimeout] \<rparr>"
  by (simp add: runCommands_def runCommands_loop.simps Let_def w_ok_then_enoent_def
      rsc_ok rsc_enoent step_effects_def res_enoent_def res_ok_def)
    (simp add: missing_cmd_def echo_cmd_def normalizeArgs_def String_def)

section \<open>Length and shape of the returned results\<close>

lemma loop_returns:
  "all_exit w i cmds \<Longrightarrow> \<exists>cr. returned (runCommands_loop pf w i cmds rs False tr) = Fulfilled cr"
proof (induction cmds arbitrary: i rs tr)
  case Nil
  then show ?case by simp
next
  case (Cons cmd rest)
  from Cons.prems have ex: "exits (w i)" and rest: "all_exit w (Suc i) rest" by simp_all
  from rsc_exits [OF ex] obtain r0 where r0: "settled (runSingleCommand pf cmd (w i)) = Fulfilled r0"
    by blast
  show ?case
  proof (cases rule: step_cases [of pf cmd w i])
    case pending
    then show ?thesis using r0 by simp
  next
    case (rejected err)
    then show ?thesis using r0 by simp
  next
    case (stop r)
    then show ?thesis by (simp add: loop_stop)
  next
    case (continue r)
    then show ?thesis using Cons.IH [OF rest] by (simp add: loop_continue)
  qed
qed

lemma loop_length_iff:
  "returned (runCommands_loop pf w i cmds rs False tr) = Fulfilled cr \<Longrightarrow>
     (length (results cr) = length rs + length cmds) = all_clean pf w i (butlast cmds)"
proof (induction cmds arbitrary: i rs tr)
  case Nil
  then show ?case by auto
next
  case (Cons cmd rest)
  show ?case
  proof (cases rule: step_cases [of pf cmd w i])
    case pending
    then show ?thesis using Cons.prems by (simp add: loop_pending)
  next
    case (rejected err)
    then show ?thesis using Cons.prems by (simp add: loop_rejected)
  next
    case (stop r)
    then have res: "results cr = rs @ [r]" using Cons.prems by (auto simp: loop_stop)
    have nc: "\<not> clean_step pf w i cmd" using stop by (auto simp: clean_step_iff)
    show ?thesis
    proof (cases rest)
      case Nil
      then show ?thesis using res by simp
    next
      case (Cons c cs)
      then show ?thesis using res nc by simp
    qed
  next
    case (continue r)
    then have run: "returned (runCommands_loop pf w (Suc i) rest (rs @ [r]) False
        (tr @ step_effects pf i cmd (runSingleCommand pf cmd (w i)) @ [OnCommandResult r]))
        = Fulfilled cr"
      using Cons.prems by (simp add: loop_continue)
    have cl: "clean_step pf w i cmd" using continue by (auto simp: clean_step_iff)
    from Cons.IH [OF run]
    have ih: "(length (results cr) = length (rs @ [r]) + length rest)
                = all_clean pf w (Suc i) (butlast rest)" .
    show ?thesis
    proof (cases rest)
      case Nil
      then show ?thesis using ih by simp
    next
      case (Cons c cs)
      then show ?thesis using ih cl by simp
    qed
  qed
qed

text \<open>
  C1, as the code has it. When every child is started and exits, \<open>runCommands\<close> returns.
  What it returns is never longer than the chain, and is as long as the chain exactly
  when every step before the last exited with code 0 with the timer not yet fired on its
  return: the result of the last step is pushed whatever its exit code, and also when the
  timer fired while it ran.
\<close>

theorem results_length_chain_length:
  "(all_exit w 0 cmds \<longrightarrow> (\<exists>cr. returned (runCommands pf w cmds T) = Fulfilled cr))
   \<and> (returned (runCommands pf w cmds T) = Fulfilled cr \<longrightarrow>
        length (results cr) \<le> length cmds
        \<and> ((length (results cr) = length cmds) = all_clean pf w 0 (butlast cmds)))"
proof (intro conjI impI)
  assume "all_exit w 0 cmds"
  then show "\<exists>cr. returned (runCommands pf w cmds T) = Fulfilled cr"
    unfolding runCommands_def by (rule loop_returns)
next
  assume run: "returned (runCommands pf w cmds T) = Fulfilled cr"
  then show "length (results cr) \<le> length cmds"
    unfolding runCommands_def by (auto dest: loop_shape)
  from run show "(length (results cr) = length cmds) = all_clean pf w 0 (butlast cmds)"
    unfolding runCommands_def by (auto dest: loop_length_iff)
qed

text \<open>
  The claim of C1 as it is written fails: a chain of one command that exits with code 1
  returns one result, as many as the chain has commands, though no step exited with 0.
\<close>

theorem results_length_iff_counterexample:
  "returned (runCommands pf0 w_exit1 [false_cmd] 5000)
     = Fulfilled \<lparr> results = [res_exit1], timedOut = False \<rparr>
   \<and> length [res_exit1] = length [false_cmd]
   \<and> exitCode res_exit1 = Some 1
   \<and> exitCode res_exit1 \<noteq> Some 0"
  by (simp add: run_exit1) (simp add: res_exit1_def)

theorem results_length_chain_length_witness:
  "all_exit w_ok_then_exit1 0 [echo_cmd, false_cmd, echo_cmd]
   \<and> returned (runCommands pf0 w_ok_then_exit1 [echo_cmd, false_cmd, echo_cmd] 5000)
       = Fulfilled \<lparr> results = [res_ok, res_exit1], timedOut = False \<rparr>
   \<and> length [res_ok, res_exit1] \<le> length [echo_cmd, false_cmd, echo_cmd]
   \<and> \<not> all_clean pf0 w_ok_then_exit1 0 (butlast [echo_cmd, false_cmd, echo_cmd])"
proof -
  have ex: "all_exit w_ok_then_exit1 0 [echo_cmd, false_cmd, echo_cmd]"
    by (simp add: w_ok_then_exit1_def exits_def env_ok_def env_exit1_def settling_def)
  have run: "returned (runCommands pf0 w_ok_then_exit1 [echo_cmd, false_cmd, echo_cmd] 5000)
       = Fulfilled \<lparr> results = [res_ok, res_exit1], timedOut = False \<rparr>"
    by (simp add: run_ok_then_exit1)
  from results_length_chain_length [of w_ok_then_exit1 "[echo_cmd, false_cmd, echo_cmd]" pf0 5000
      "\<lparr> results = [res_ok, res_exit1], timedOut = False \<rparr>"] run
  have "\<not> all_clean pf0 w_ok_then_exit1 0 (butlast [echo_cmd, false_cmd, echo_cmd])"
    by simp
  with ex run show ?thesis by simp
qed

text \<open>
  C10. In the results that \<open>runCommands\<close> returns, every result but the last has exit
  code 0, so the number of results with exit code 0 is at least their number minus one.
\<close>

theorem results_all_but_last_zero:
  assumes "returned (runCommands pf w cmds T) = Fulfilled cr"
  shows "(\<forall>j. Suc j < length (results cr) \<longrightarrow> exitCode (results cr ! j) = Some 0)
         \<and> length (results cr) \<le> Suc (successes (results cr))"
proof -
  from assms obtain new where new: "results cr = new"
    and zero: "\<forall>r \<in> set (butlast new). exitCode r = Some 0"
    unfolding runCommands_def by (auto dest: loop_shape)
  have nth: "exitCode (new ! j) = Some 0" if "Suc j < length new" for j
  proof -
    from that have "j < length (butlast new)" by simp
    then have "butlast new ! j \<in> set (butlast new)" by (rule nth_mem)
    moreover have "butlast new ! j = new ! j" using \<open>j < length (butlast new)\<close>
      by (rule nth_butlast)
    ultimately show ?thesis using zero by auto
  qed
  have "filter (\<lambda>r. exitCode r = Some 0) (butlast new) = butlast new"
    using zero by (simp add: filter_id_conv)
  moreover have "length (filter (\<lambda>r. exitCode r = Some 0) (butlast new))
      \<le> length (filter (\<lambda>r. exitCode r = Some 0) new)"
  proof (cases "new = []")
    case True
    then show ?thesis by simp
  next
    case False
    then have "new = butlast new @ [last new]" by simp
    then have "filter (\<lambda>r. exitCode r = Some 0) new
        = filter (\<lambda>r. exitCode r = Some 0) (butlast new) @ filter (\<lambda>r. exitCode r = Some 0) [last new]"
      by (metis filter_append)
    then show ?thesis by simp
  qed
  ultimately have "length new \<le> Suc (successes new)"
    by (simp add: successes_def)
  with nth new show ?thesis by simp
qed

theorem results_all_but_last_zero_witness:
  "returned (runCommands pf0 w_ok_then_enoent [echo_cmd, missing_cmd, echo_cmd] 5000)
     = Fulfilled \<lparr> results = [res_ok, res_enoent], timedOut = False \<rparr>
   \<and> exitCode ([res_ok, res_enoent] ! 0) = Some 0
   \<and> length [res_ok, res_enoent] \<le> Suc (successes [res_ok, res_enoent])"
proof -
  have run: "returned (runCommands pf0 w_ok_then_enoent [echo_cmd, missing_cmd, echo_cmd] 5000)
     = Fulfilled \<lparr> results = [res_ok, res_enoent], timedOut = False \<rparr>"
    by (simp add: run_ok_then_enoent)
  from results_all_but_last_zero [OF run] have
    "exitCode ([res_ok, res_enoent] ! 0) = Some 0"
    "length [res_ok, res_enoent] \<le> Suc (successes [res_ok, res_enoent])"
    by simp_all
  with run show ?thesis by simp
qed

section \<open>Stopping at the first failure\<close>

lemma is_spawn_simps:
  "\<not> is_spawn (SetTimeout T)" "\<not> is_spawn (OnCommandResult r)" "\<not> is_spawn ClearTimeout"
  "\<not> is_spawn (Kill j)" "is_spawn (SpawnCall c as d)"
  by (simp_all add: is_spawn_def)

lemma is_kill_simps:
  "\<not> is_kill (SetTimeout T)" "\<not> is_kill (OnCommandResult r)" "\<not> is_kill ClearTimeout"
  "is_kill (Kill j)" "\<not> is_kill (SpawnCall c as d)"
  by (simp_all add: is_kill_def)

lemma loop_stops_at_failure:
  "all_clean pf w i pre \<Longrightarrow> failing_step pf w (i + length pre) c \<Longrightarrow>
     \<exists>cr. returned (runCommands_loop pf w i (pre @ c # post) rs False tr) = Fulfilled cr
        \<and> length (results cr) = length rs + Suc (length pre)
        \<and> settled (runSingleCommand pf c (w (i + length pre))) = Fulfilled (last (results cr))
        \<and> filter is_spawn (effects (runCommands_loop pf w i (pre @ c # post) rs False tr))
            = filter is_spawn tr @ map (spawn_of pf) (pre @ [c])"
proof (induction pre arbitrary: i rs tr)
  case Nil
  then obtain r where r: "settled (runSingleCommand pf c (w i)) = Fulfilled r"
    "exitCode r \<noteq> Some 0"
    by (auto simp: failing_step_iff)
  then show ?case
    by (simp add: loop_stop filter_spawn_step_effects is_spawn_simps)
next
  case (Cons cmd pre)
  from Cons.prems(1) obtain r where r: "settled (runSingleCommand pf cmd (w i)) = Fulfilled r"
    "exitCode r = Some 0" "\<not> kill_sent (runSingleCommand pf cmd (w i))"
    and rest: "all_clean pf w (Suc i) pre"
    by (auto simp: clean_step_iff)
  from Cons.prems(2) have "failing_step pf w (Suc i + length pre) c" by simp
  from Cons.IH [OF rest this, of "rs @ [r]"
      "tr @ step_effects pf i cmd (runSingleCommand pf cmd (w i)) @ [OnCommandResult r]"]
  show ?case using r
    by (simp add: loop_continue filter_spawn_step_effects is_spawn_simps)
qed

text \<open>
  C2. When steps 1 to \<open>k - 1\<close> exit with code 0 with the timer not fired on their
  return, and step \<open>k\<close> returns a result whose exit code is not 0 (another number, or
  null), \<open>runCommands\<close> returns exactly \<open>k\<close> results, and \<open>spawn\<close> has been called
  for the first \<open>k\<close> commands and for no other.
\<close>

theorem stops_at_first_failure:
  assumes "0 < k" and "k \<le> length cmds"
    and "all_clean pf w 0 (take (k - 1) cmds)"
    and "failing_step pf w (k - 1) (cmds ! (k - 1))"
  shows "\<exists>cr. returned (runCommands pf w cmds T) = Fulfilled cr
           \<and> length (results cr) = k
           \<and> filter is_spawn (effects (runCommands pf w cmds T))
               = map (spawn_of pf) (take k cmds)"
proof -
  let ?pre = "take (k - 1) cmds" and ?c = "cmds ! (k - 1)" and ?post = "drop k cmds"
  from assms(1,2) have lt: "k - 1 < length cmds" by simp
  have split: "cmds = ?pre @ ?c # ?post"
    using id_take_nth_drop [OF lt] assms(1) by simp
  have len: "length ?pre = k - 1" using lt by simp
  have tk: "take k cmds = ?pre @ [?c]"
    using take_Suc_conv_app_nth [OF lt] assms(1) by simp
  from assms(4) len have "failing_step pf w (0 + length ?pre) ?c" by simp
  from loop_stops_at_failure [OF assms(3) this, of ?post "[]" "[SetTimeout T]"]
  obtain cr where "returned (runCommands_loop pf w 0 (?pre @ ?c # ?post) [] False [SetTimeout T])
        = Fulfilled cr"
    "length (results cr) = length ([]::CommandResult list) + Suc (length ?pre)"
    "filter is_spawn (effects (runCommands_loop pf w 0 (?pre @ ?c # ?post) [] False [SetTimeout T]))
       = filter is_spawn [SetTimeout T] @ map (spawn_of pf) (?pre @ [?c])"
    by blast
  then have "returned (runCommands pf w cmds T) = Fulfilled cr"
    "length (results cr) = k"
    "filter is_spawn (effects (runCommands pf w cmds T)) = map (spawn_of pf) (take k cmds)"
    unfolding runCommands_def using split [symmetric] len tk assms(1)
    by (simp_all add: is_spawn_simps)
  then show ?thesis by blast
qed

theorem stops_at_first_failure_witness:
  "(0::nat) < 2 \<and> 2 \<le> length [echo_cmd, false_cmd, echo_cmd]
   \<and> all_clean pf0 w_ok_then_exit1 0 (take (2 - 1) [echo_cmd, false_cmd, echo_cmd])
   \<and> failing_step pf0 w_ok_then_exit1 (2 - 1) ([echo_cmd, false_cmd, echo_cmd] ! (2 - 1))
   \<and> (\<exists>cr. returned (runCommands pf0 w_ok_then_exit1 [echo_cmd, false_cmd, echo_cmd] 5000)
              = Fulfilled cr
           \<and> length (results cr) = 2
           \<and> filter is_spawn (effects (runCommands pf0 w_ok_then_exit1
                 [echo_cmd, false_cmd, echo_cmd] 5000))
               = map (spawn_of pf0) (take 2 [echo_cmd, false_cmd, echo_cmd]))"
proof -
  have a: "(0::nat) < 2" "2 \<le> length [echo_cmd, false_cmd, echo_cmd]" by simp_all
  have env: "w_ok_then_exit1 0 = env_ok" "w_ok_then_exit1 (Suc 0) = env_exit1"
    by (simp_all add: w_ok_then_exit1_def)
  have c: "all_clean pf0 w_ok_then_exit1 0 (take (2 - 1) [echo_cmd, false_cmd, echo_cmd])"
    by (simp add: clean_step_def env rsc_ok res_ok_def)
  have f: "failing_step pf0 w_ok_then_exit1 (2 - 1) ([echo_cmd, false_cmd, echo_cmd] ! (2 - 1))"
    by (simp add: failing_step_def env rsc_exit1 res_exit1_def)
  from stops_at_first_failure [OF a c f, of 5000] a c f show ?thesis by blast
qed

section \<open>The deadline\<close>

lemma loop_timedOut_kill:
  "\<not> list_ex is_kill tr \<Longrightarrow>
   returned (runCommands_loop pf w i cmds rs False tr) = Fulfilled cr \<Longrightarrow>
     timedOut cr = list_ex is_kill (effects (runCommands_loop pf w i cmds rs False tr))"
proof (induction cmds arbitrary: i rs tr)
  case Nil
  then show ?case by (auto simp: is_kill_simps)
next
  case (Cons cmd rest)
  show ?case
  proof (cases rule: step_cases [of pf cmd w i])
    case pending
    then show ?thesis using Cons.prems by (simp add: loop_pending)
  next
    case (rejected err)
    then show ?thesis using Cons.prems by (simp add: loop_rejected)
  next
    case (stop r)
    then show ?thesis using Cons.prems
      by (auto simp: loop_stop is_kill_step_effects is_kill_simps)
  next
    case (continue r)
    have nk: "\<not> list_ex is_kill
        (tr @ step_effects pf i cmd (runSingleCommand pf cmd (w i)) @ [OnCommandResult r])"
      using Cons.prems(1) continue(3) by (simp add: is_kill_step_effects is_kill_simps)
    from continue Cons.prems(2) Cons.IH [OF nk] show ?thesis
      by (simp add: loop_continue)
  qed
qed

lemma loop_rejected_no_kill:
  "\<not> list_ex is_kill tr \<Longrightarrow>
   returned (runCommands_loop pf w i cmds rs False tr) = Rejected err \<Longrightarrow>
     \<not> list_ex is_kill (effects (runCommands_loop pf w i cmds rs False tr))"
proof (induction cmds arbitrary: i rs tr)
  case Nil
  then show ?case by simp
next
  case (Cons cmd rest)
  show ?case
  proof (cases rule: step_cases [of pf cmd w i])
    case pending
    then show ?thesis using Cons.prems by (simp add: loop_pending)
  next
    case (rejected e)
    then have "\<not> kill_sent (runSingleCommand pf cmd (w i))"
      using rsc_throws [OF rsc_rejected] by blast
    then show ?thesis using rejected Cons.prems
      by (simp add: loop_rejected is_kill_step_effects is_kill_simps)
  next
    case (stop r)
    then show ?thesis using Cons.prems by (simp add: loop_stop)
  next
    case (continue r)
    have nk: "\<not> list_ex is_kill
        (tr @ step_effects pf i cmd (runSingleCommand pf cmd (w i)) @ [OnCommandResult r])"
      using Cons.prems(1) continue(3) by (simp add: is_kill_step_effects is_kill_simps)
    from continue Cons.prems(2) Cons.IH [OF nk] show ?thesis
      by (simp add: loop_continue)
  qed
qed

section \<open>The dispatcher\<close>

lemma listener_runs_route:
  assumes "findRoute cfg (case req_method req of None \<Rightarrow> ''GET'' | Some m \<Rightarrow> m) (pathname req)
             = Some route"
    and "bearerKey route = None \<or> bearerKey route = Some []
           \<or> getBearerToken req route = bearerKey route"
  shows "requestListener pf cfg env req = respond (runRoute pf env route)"
  using assms by (auto simp: requestListener_def Let_def)

lemma runRoute_fulfilled:
  "returned (runCommands pf (world env) (commands route) (timeoutMs route)) = Fulfilled cr \<Longrightarrow>
     runRoute pf env route
       = Fulfilled (JObj (route_body pf (startClock env) (endClock env) route cr))"
  by (simp add: runRoute_def)

lemma body_fields:
  "map_of (route_body pf s e route cr) ''totalCommands''
      = Some (JNum (real (length (commands route))))"
  "map_of (route_body pf s e route cr) ''successCount''
      = Some (JNum (real (successes (results cr))))"
  "map_of (route_body pf s e route cr) ''timedOut'' = Some (JBool (timedOut cr))"
  "map_of (route_body pf s e route cr) ''commandLogs''
      = (if includeLogsInResponse route then Some (JArr (map commandLog (results cr))) else None)"
  by (simp_all add: route_body_def successes_def)

section \<open>Counting successes\<close>

lemma successes_snoc:
  "successes (xs @ [x]) = successes xs + (if exitCode x = Some 0 then 1 else 0)"
  by (simp add: successes_def)

lemma successes_all:
  "\<forall>r \<in> set xs. exitCode r = Some 0 \<Longrightarrow> successes xs = length xs"
  by (simp add: successes_def filter_id_conv)

lemma find_deploy:
  "findRoute cfg0 ''POST'' ''/deploy'' = Some route_deploy"
  by (simp add: findRoute_def cfg0_def route_webhook_def route_secure_def route_query_def
      route_slow_def route_deploy_def)

section \<open>Route matching and the bearer gate\<close>

lemma startsWith_Bearer: "startsWith a ''Bearer '' = (take 7 a = ''Bearer '')"
proof -
  have "length ''Bearer '' = 7" by simp
  then show ?thesis unfolding startsWith_def by (simp only:)
qed

lemma getBearerToken_spec:
  "getBearerToken req route
     = spec_token (bearerSource route) (searchParams req) (authorization req)"
  by (cases "bearerSource route")
    (auto simp: getBearerToken_def spec_token_def startsWith_Bearer Let_def
      split: option.splits)

lemma respond_not_403: "respond p \<noteq> Some (sendEmpty 403)"
  by (cases p) (simp_all add: respond_def sendJson_def sendEmpty_def)

text \<open>
  C4. For a request that matches a route: when the route's \<open>bearerKey\<close> is absent or
  the empty string, the listener goes straight to the chain; otherwise it answers 403
  with an empty body exactly when the extracted token is absent or differs from
  \<open>bearerKey\<close>, and goes to the chain when they are equal. The token that the code
  extracts is the one the specification describes, and running the chain never answers
  403.
\<close>

theorem bearer_gate:
  assumes "findRoute cfg (case req_method req of None \<Rightarrow> ''GET'' | Some m \<Rightarrow> m) (pathname req)
             = Some route"
  shows "(bearerKey route = None \<or> bearerKey route = Some [] \<longrightarrow>
            requestListener pf cfg env req = respond (runRoute pf env route))
       \<and> (\<forall>key. bearerKey route = Some key \<and> key \<noteq> [] \<longrightarrow>
            ((requestListener pf cfg env req = Some (sendEmpty 403))
               = (getBearerToken req route = None \<or> getBearerToken req route \<noteq> Some key))
          \<and> (getBearerToken req route = Some key \<longrightarrow>
               requestListener pf cfg env req = respond (runRoute pf env route)))
       \<and> getBearerToken req route
           = spec_token (bearerSource route) (searchParams req) (authorization req)
       \<and> sendEmpty 403 = \<lparr> status = 403, contentType = None, payload = None \<rparr>
       \<and> respond (runRoute pf env route) \<noteq> Some (sendEmpty 403)"
proof (intro conjI allI impI)
  assume "bearerKey route = None \<or> bearerKey route = Some []"
  then show "requestListener pf cfg env req = respond (runRoute pf env route)"
    using assms by (auto simp: requestListener_def Let_def)
next
  fix key
  assume key: "bearerKey route = Some key \<and> key \<noteq> []"
  show "(requestListener pf cfg env req = Some (sendEmpty 403))
          = (getBearerToken req route = None \<or> getBearerToken req route \<noteq> Some key)"
    using assms key respond_not_403 [of "runRoute pf env route"]
    by (auto simp: requestListener_def Let_def)
  assume "getBearerToken req route = Some key"
  then show "requestListener pf cfg env req = respond (runRoute pf env route)"
    using assms key by (auto simp: requestListener_def Let_def)
next
  show "getBearerToken req route
          = spec_token (bearerSource route) (searchParams req) (authorization req)"
    by (rule getBearerToken_spec)
  show "sendEmpty 403 = \<lparr> status = 403, contentType = None, payload = None \<rparr>"
    by (simp add: sendEmpty_def)
  show "respond (runRoute pf env route) \<noteq> Some (sendEmpty 403)"
    by (rule respond_not_403)
qed

lemma find_secure:
  "findRoute cfg0 ''POST'' ''/secure'' = Some route_secure"
  by (simp add: findRoute_def cfg0_def route_webhook_def route_secure_def)

lemma trim_padded: "trim '' secret123 '' = ''secret123''"
  by (simp add: trim_def is_ws_def)

lemma find_query:
  "findRoute cfg0 ''GET'' ''/query-auth'' = Some route_query"
  by (simp add: findRoute_def cfg0_def route_webhook_def route_secure_def route_query_def)

theorem bearer_gate_witness:
  "findRoute cfg0 (case req_method req_secure of None \<Rightarrow> ''GET'' | Some m \<Rightarrow> m)
       (pathname req_secure) = Some route_secure
   \<and> bearerKey route_secure = Some ''secret123''
   \<and> getBearerToken req_secure route_secure = Some ''secret123''
   \<and> requestListener pf0 cfg0 (env_of w_ok) req_secure
       = respond (runRoute pf0 (env_of w_ok) route_secure)
   \<and> getBearerToken req_secure_lower route_secure = None
   \<and> requestListener pf0 cfg0 (env_of w_ok) req_secure_lower = Some (sendEmpty 403)
   \<and> findRoute cfg0 (case req_method req_query of None \<Rightarrow> ''GET'' | Some m \<Rightarrow> m)
       (pathname req_query) = Some route_query
   \<and> bearerKey route_query = Some ''query-secret''
   \<and> getBearerToken req_query route_query = Some ''query-secret''
   \<and> requestListener pf0 cfg0 (env_of w_ok) req_query
       = respond (runRoute pf0 (env_of w_ok) route_query)"
proof -
  have f: "findRoute cfg0 (case req_method req_secure of None \<Rightarrow> ''GET'' | Some m \<Rightarrow> m)
       (pathname req_secure) = Some route_secure"
    by (simp add: req_secure_def find_secure)
  have f': "findRoute cfg0 (case req_method req_secure_lower of None \<Rightarrow> ''GET'' | Some m \<Rightarrow> m)
       (pathname req_secure_lower) = Some route_secure"
    by (simp add: req_secure_lower_def find_secure)
  have fq: "findRoute cfg0 (case req_method req_query of None \<Rightarrow> ''GET'' | Some m \<Rightarrow> m)
       (pathname req_query) = Some route_query"
    by (simp add: req_query_def find_query)
  have k: "bearerKey route_secure = Some ''secret123'' \<and> ''secret123'' \<noteq> []"
    by (simp add: route_secure_def)
  have kq: "bearerKey route_query = Some ''query-secret'' \<and> ''query-secret'' \<noteq> []"
    by (simp add: route_query_def)
  have t: "getBearerToken req_secure route_secure = Some ''secret123''"
    by (simp add: getBearerToken_def req_secure_def route_secure_def startsWith_Bearer
        trim_padded)
  have t': "getBearerToken req_secure_lower route_secure = None"
    by (simp add: getBearerToken_def req_secure_lower_def route_secure_def startsWith_Bearer)
  have tq: "getBearerToken req_query route_query = Some ''query-secret''"
    by (simp add: getBearerToken_def req_query_def route_query_def)
  from bearer_gate [OF f, of pf0 "env_of w_ok"] k t
  have a: "requestListener pf0 cfg0 (env_of w_ok) req_secure
       = respond (runRoute pf0 (env_of w_ok) route_secure)"
    by blast
  from bearer_gate [OF f', of pf0 "env_of w_ok"] k t'
  have b: "requestListener pf0 cfg0 (env_of w_ok) req_secure_lower = Some (sendEmpty 403)"
    by blast
  from bearer_gate [OF fq, of pf0 "env_of w_ok"] kq tq
  have c: "requestListener pf0 cfg0 (env_of w_ok) req_query
       = respond (runRoute pf0 (env_of w_ok) route_query)"
    by blast
  from f k t a t' b fq kq tq c show ?thesis by simp
qed

lemma findRoute_None:
  "(findRoute cfg m p = None) = (\<forall>r \<in> set (routes cfg). \<not> (method r = m \<and> path r = p))"
  by (auto simp: findRoute_def find_None_iff)

lemma findRoute_Some:
  "findRoute cfg m p = Some route \<Longrightarrow>
     route \<in> set (routes cfg) \<and> method route = m \<and> path route = p"
  by (auto simp: findRoute_def find_Some_iff)

section \<open>The body of a 200\<close>

lemma respond_200:
  "respond p = Some resp \<Longrightarrow> status resp = 200 \<Longrightarrow> \<exists>body. p = Fulfilled body \<and> resp = sendJson 200 body"
  by (cases p) (auto simp: respond_def sendJson_def)

lemma runRoute_Fulfilled_iff:
  "runRoute pf env route = Fulfilled body \<Longrightarrow>
     \<exists>cr. returned (runCommands pf (world env) (commands route) (timeoutMs route)) = Fulfilled cr
        \<and> body = JObj (route_body pf (startClock env) (endClock env) route cr)"
  by (auto simp: runRoute_def split: promise.splits)

lemma commandLog_view:
  "keys (commandLog r) = [''cwd'', ''command'', ''args'', ''stdout'', ''stderr'', ''durationMs'']"
  "field (commandLog r) ''cwd'' = Some (JStr (r_cwd r))"
  "field (commandLog r) ''command'' = Some (JStr (r_command r))"
  "field (commandLog r) ''args'' = Some (JArr (map JStr (r_args r)))"
  "field (commandLog r) ''stdout'' = Some (JStr (stdout r))"
  "field (commandLog r) ''stderr'' = Some (JStr (stderr r))"
  "field (commandLog r) ''durationMs'' = Some (JNum (durationMs r))"
  "field (commandLog r) ''exitCode'' = None"
  "field (commandLog r) ''startedAt'' = None"
  "field (commandLog r) ''finishedAt'' = None"
  by (simp_all add: commandLog_def keys_def field_def)

text \<open>
  C8. When the listener answers 200, the request matched a route whose chain returned,
  and the JSON body has \<open>totalCommands\<close> equal to the length of the configured chain,
  \<open>successCount\<close> equal to the number of returned results with exit code 0, and a
  \<open>commandLogs\<close> key exactly when \<open>includeLogsInResponse\<close> is true: an array with one
  entry per returned result, in order, each with the keys \<open>cwd\<close>, \<open>command\<close>,
  \<open>args\<close>, \<open>stdout\<close>, \<open>stderr\<close> and \<open>durationMs\<close> of the result and no others.
\<close>

theorem body_of_200:
  assumes "requestListener pf cfg env req = Some resp" and "status resp = 200"
  shows "\<exists>route cr body.
           findRoute cfg (case req_method req of None \<Rightarrow> ''GET'' | Some m \<Rightarrow> m) (pathname req)
             = Some route
         \<and> returned (runCommands pf (world env) (commands route) (timeoutMs route)) = Fulfilled cr
         \<and> resp = \<lparr> status = 200, contentType = Some ''application/json'', payload = Some body \<rparr>
         \<and> field body ''totalCommands'' = Some (JNum (real (length (commands route))))
         \<and> field body ''successCount''
             = Some (JNum (real (length (filter (\<lambda>r. exitCode r = Some 0) (results cr)))))
         \<and> field body ''commandLogs''
             = (if includeLogsInResponse route then Some (JArr (map commandLog (results cr)))
                else None)
         \<and> length (map commandLog (results cr)) = length (results cr)
         \<and> (\<forall>r. keys (commandLog r)
                   = [''cwd'', ''command'', ''args'', ''stdout'', ''stderr'', ''durationMs'']
               \<and> field (commandLog r) ''cwd'' = Some (JStr (r_cwd r))
               \<and> field (commandLog r) ''command'' = Some (JStr (r_command r))
               \<and> field (commandLog r) ''args'' = Some (JArr (map JStr (r_args r)))
               \<and> field (commandLog r) ''stdout'' = Some (JStr (stdout r))
               \<and> field (commandLog r) ''stderr'' = Some (JStr (stderr r))
               \<and> field (commandLog r) ''durationMs'' = Some (JNum (durationMs r))
               \<and> field (commandLog r) ''exitCode'' = None
               \<and> field (commandLog r) ''startedAt'' = None
               \<and> field (commandLog r) ''finishedAt'' = None)"
proof -
  let ?m = "case req_method req of None \<Rightarrow> ''GET'' | Some m \<Rightarrow> m"
  from assms obtain route where route: "findRoute cfg ?m (pathname req) = Some route"
    and resp: "respond (runRoute pf env route) = Some resp"
    by (auto simp: requestListener_def Let_def sendEmpty_def split: option.splits if_splits)
  from respond_200 [OF resp assms(2)] obtain body
    where body: "runRoute pf env route = Fulfilled body" "resp = sendJson 200 body"
    by blast
  from runRoute_Fulfilled_iff [OF body(1)] obtain cr
    where cr: "returned (runCommands pf (world env) (commands route) (timeoutMs route)) = Fulfilled cr"
      "body = JObj (route_body pf (startClock env) (endClock env) route cr)"
    by blast
  have fields: "field body ''totalCommands'' = Some (JNum (real (length (commands route))))"
    "field body ''successCount''
       = Some (JNum (real (length (filter (\<lambda>r. exitCode r = Some 0) (results cr)))))"
    "field body ''commandLogs''
       = (if includeLogsInResponse route then Some (JArr (map commandLog (results cr))) else None)"
    using cr(2) by (simp_all add: field_def body_fields successes_def)
  have "resp = \<lparr> status = 200, contentType = Some ''application/json'', payload = Some body \<rparr>"
    using body(2) by (simp add: sendJson_def)
  with route cr(1) fields show ?thesis
    by (intro exI [of _ route] exI [of _ cr] exI [of _ body]) (simp add: commandLog_view)
qed

lemma run_deploy:
  "runCommands pf0 (world (env_of w_ok_then_enoent)) (commands route_deploy) (timeoutMs route_deploy)
     = runCommands pf0 w_ok_then_enoent [echo_cmd, missing_cmd, echo_cmd] 5000"
  by (simp add: env_of_def route_deploy_def)

lemma listener_deploy:
  "requestListener pf0 cfg0 (env_of w_ok_then_enoent) req_deploy
     = Some (sendJson 200 (JObj (route_body pf0 0 240 route_deploy
          \<lparr> results = [res_ok, res_enoent], timedOut = False \<rparr>)))"
proof -
  have "requestListener pf0 cfg0 (env_of w_ok_then_enoent) req_deploy
      = respond (runRoute pf0 (env_of w_ok_then_enoent) route_deploy)"
    by (rule listener_runs_route) (simp_all add: req_deploy_def find_deploy route_deploy_def)
  also have "runRoute pf0 (env_of w_ok_then_enoent) route_deploy
      = Fulfilled (JObj (route_body pf0 0 240 route_deploy
          \<lparr> results = [res_ok, res_enoent], timedOut = False \<rparr>))"
    by (simp add: runRoute_def run_deploy run_ok_then_enoent) (simp add: env_of_def)
  finally show ?thesis by (simp add: respond_def)
qed

theorem body_of_200_witness:
  "requestListener pf0 cfg0 (env_of w_ok_then_enoent) req_deploy
     = Some (sendJson 200 (JObj (route_body pf0 0 240 route_deploy
          \<lparr> results = [res_ok, res_enoent], timedOut = False \<rparr>)))
   \<and> status (sendJson 200 (JObj (route_body pf0 0 240 route_deploy
          \<lparr> results = [res_ok, res_enoent], timedOut = False \<rparr>))) = 200
   \<and> (\<exists>body. payload (sendJson 200 (JObj (route_body pf0 0 240 route_deploy
          \<lparr> results = [res_ok, res_enoent], timedOut = False \<rparr>))) = Some body
         \<and> field body ''totalCommands'' = Some (JNum 3)
         \<and> field body ''successCount'' = Some (JNum 1)
         \<and> field body ''commandLogs'' = Some (JArr [commandLog res_ok, commandLog res_enoent]))"
proof -
  let ?resp = "sendJson 200 (JObj (route_body pf0 0 240 route_deploy
          \<lparr> results = [res_ok, res_enoent], timedOut = False \<rparr>))"
  have s: "status ?resp = 200" by (simp add: sendJson_def)
  from body_of_200 [OF listener_deploy s] obtain route cr body where
    f: "findRoute cfg0 (case req_method req_deploy of None \<Rightarrow> ''GET'' | Some m \<Rightarrow> m)
          (pathname req_deploy) = Some route"
    and cr: "returned (runCommands pf0 (world (env_of w_ok_then_enoent)) (commands route)
          (timeoutMs route)) = Fulfilled cr"
    and resp: "?resp = \<lparr> status = 200, contentType = Some ''application/json'', payload = Some body \<rparr>"
    and fields: "field body ''totalCommands'' = Some (JNum (real (length (commands route))))"
      "field body ''successCount''
         = Some (JNum (real (length (filter (\<lambda>r. exitCode r = Some 0) (results cr)))))"
      "field body ''commandLogs''
         = (if includeLogsInResponse route then Some (JArr (map commandLog (results cr))) else None)"
    by blast
  from f have route: "route = route_deploy" by (simp add: req_deploy_def find_deploy)
  from cr have crv: "cr = \<lparr> results = [res_ok, res_enoent], timedOut = False \<rparr>"
    by (simp add: route run_deploy run_ok_then_enoent)
  have "payload ?resp = Some body" using resp by (simp add: sendJson_def)
  moreover from fields have "field body ''totalCommands'' = Some (JNum 3)"
    "field body ''successCount'' = Some (JNum 1)"
    "field body ''commandLogs'' = Some (JArr [commandLog res_ok, commandLog res_enoent])"
    by (simp_all add: route crv route_deploy_def res_ok_def res_enoent_def)
  ultimately show ?thesis using listener_deploy s by blast
qed

section \<open>The step that ends a chain\<close>

lemma on_event_kill_kept:
  "kill_sent s \<Longrightarrow> kill_sent (on_event pf cmd as t e s)"
  by (cases e) simp_all

lemma deliver_kill_kept:
  "kill_sent s \<Longrightarrow> kill_sent (deliver pf cmd as t evs s)"
  by (induction evs arbitrary: s) (simp_all add: on_event_kill_kept)

lemma deliver_abort_first:
  "abort_first evs \<Longrightarrow> settled s = Pending \<Longrightarrow> kill_sent (deliver pf cmd as t evs s)"
proof (induction evs arbitrary: s rule: abort_first.induct)
  case (2 es)
  then show ?case by (simp add: deliver_kill_kept)
qed simp_all

lemma deliver_never_settles:
  "\<not> list_ex settling evs \<Longrightarrow> settled s = Pending
     \<Longrightarrow> settled (deliver pf cmd as t evs s) = Pending"
proof (induction evs arbitrary: s)
  case Nil
  then show ?case by simp
next
  case (Cons e evs)
  then have "settled (on_event pf cmd as t e s) = Pending"
    by (simp add: on_event_settling)
  with Cons show ?case by simp
qed

lemma rsc_fires:
  "fires_during env \<Longrightarrow> kill_sent (runSingleCommand pf cmd env)"
  by (auto simp: runSingleCommand_def Let_def fires_during_def deliver_abort_first
      split: spawn_outcome.splits)

lemma rsc_never_exits:
  "fires_during env \<Longrightarrow> \<not> exits env \<Longrightarrow> settled (runSingleCommand pf cmd env) = Pending"
  by (auto simp: runSingleCommand_def Let_def fires_during_def exits_def deliver_never_settles
      split: spawn_outcome.splits)

text \<open>
  Over commands that exit with code 0 with the timer not fired, the loop goes on to the
  next command: it has pushed one result and called \<open>spawn\<close> once for each of them.
\<close>

lemma loop_over_clean:
  "all_clean pf w i pre \<Longrightarrow>
     \<exists>rs' tr'. (\<forall>rest. runCommands_loop pf w i (pre @ rest) rs False tr
                    = runCommands_loop pf w (i + length pre) rest rs' False tr')
        \<and> length rs' = length rs + length pre
        \<and> filter is_spawn tr' = filter is_spawn tr @ map (spawn_of pf) pre"
proof (induction pre arbitrary: i rs tr)
  case Nil
  show ?case by (intro exI [of _ rs] exI [of _ tr]) simp
next
  case (Cons cmd pre)
  from Cons.prems obtain r where r: "settled (runSingleCommand pf cmd (w i)) = Fulfilled r"
    "exitCode r = Some 0" "\<not> kill_sent (runSingleCommand pf cmd (w i))"
    and rest: "all_clean pf w (Suc i) pre"
    by (auto simp: clean_step_iff)
  let ?tr = "tr @ step_effects pf i cmd (runSingleCommand pf cmd (w i)) @ [OnCommandResult r]"
  from Cons.IH [OF rest, of "rs @ [r]" ?tr] obtain rs' tr' where ih:
    "\<forall>rest. runCommands_loop pf w (Suc i) (pre @ rest) (rs @ [r]) False ?tr
        = runCommands_loop pf w (Suc i + length pre) rest rs' False tr'"
    "length rs' = length (rs @ [r]) + length pre"
    "filter is_spawn tr' = filter is_spawn ?tr @ map (spawn_of pf) pre"
    by blast
  show ?case
  proof (intro exI [of _ rs'] exI [of _ tr'] conjI allI)
    fix rest
    show "runCommands_loop pf w i ((cmd # pre) @ rest) rs False tr
        = runCommands_loop pf w (i + length (cmd # pre)) rest rs' False tr'"
      using r ih(1) by (simp add: loop_continue)
    show "length rs' = length rs + length (cmd # pre)" using ih(2) by simp
    show "filter is_spawn tr' = filter is_spawn tr @ map (spawn_of pf) (cmd # pre)"
      using ih(3) by (simp add: filter_spawn_step_effects is_spawn_simps)
  qed
qed

text \<open>The chain as the commands before step \<open>k\<close>, the command of step \<open>k\<close>, and the rest.\<close>

lemma chain_split:
  assumes "k < length cmds"
  shows "cmds = take k cmds @ cmds ! k # drop (Suc k) cmds"
    and "length (take k cmds) = k"
    and "take (Suc k) cmds = take k cmds @ [cmds ! k]"
  using assms by (simp_all add: id_take_nth_drop take_Suc_conv_app_nth)

text \<open>
  What \<open>runCommands\<close> does when the steps before step \<open>k\<close> (counted from 0) are clean,
  by what the promise of step \<open>k\<close> becomes.
\<close>

lemma run_reaches:
  assumes "k < length cmds" and "all_clean pf w 0 (take k cmds)"
  shows "\<exists>rs' tr'.
           runCommands pf w cmds T = runCommands_loop pf w k (cmds ! k # drop (Suc k) cmds) rs' False tr'
         \<and> length rs' = k
         \<and> filter is_spawn tr' = map (spawn_of pf) (take k cmds)"
proof -
  from loop_over_clean [OF assms(2), of "[]" "[SetTimeout T]"] obtain rs' tr' where o:
    "\<forall>rest. runCommands_loop pf w 0 (take k cmds @ rest) [] False [SetTimeout T]
        = runCommands_loop pf w (0 + length (take k cmds)) rest rs' False tr'"
    "length rs' = length ([]::CommandResult list) + length (take k cmds)"
    "filter is_spawn tr' = filter is_spawn [SetTimeout T] @ map (spawn_of pf) (take k cmds)"
    by blast
  from o(1) have "runCommands_loop pf w 0 (take k cmds @ cmds ! k # drop (Suc k) cmds) [] False
        [SetTimeout T]
      = runCommands_loop pf w (0 + length (take k cmds)) (cmds ! k # drop (Suc k) cmds) rs' False tr'"
    by blast
  then have "runCommands pf w cmds T
      = runCommands_loop pf w k (cmds ! k # drop (Suc k) cmds) rs' False tr'"
    unfolding runCommands_def chain_split(2) [OF assms(1)]
    using chain_split(1) [OF assms(1)] by simp
  moreover have "length rs' = k" using o(2) chain_split(2) [OF assms(1)] by simp
  moreover have "filter is_spawn tr' = map (spawn_of pf) (take k cmds)"
    using o(3) by (simp add: is_spawn_simps)
  ultimately show ?thesis by blast
qed

lemma run_stops_at:
  assumes "k < length cmds" and "all_clean pf w 0 (take k cmds)"
    and "settled (runSingleCommand pf (cmds ! k) (w k)) = Fulfilled r"
    and "exitCode r \<noteq> Some 0 \<or> kill_sent (runSingleCommand pf (cmds ! k) (w k))"
  shows "\<exists>rs'. returned (runCommands pf w cmds T)
             = Fulfilled \<lparr> results = rs' @ [r],
                           timedOut = kill_sent (runSingleCommand pf (cmds ! k) (w k)) \<rparr>
         \<and> length rs' = k
         \<and> filter is_spawn (effects (runCommands pf w cmds T))
             = map (spawn_of pf) (take (Suc k) cmds)"
proof -
  from run_reaches [OF assms(1,2), of T] obtain rs' tr' where o:
    "runCommands pf w cmds T = runCommands_loop pf w k (cmds ! k # drop (Suc k) cmds) rs' False tr'"
    "length rs' = k" "filter is_spawn tr' = map (spawn_of pf) (take k cmds)"
    by blast
  show ?thesis
    using o loop_stop [where w = w and i = k, OF assms(3,4)] chain_split(3) [OF assms(1)]
    by (intro exI [of _ rs']) (simp add: filter_spawn_step_effects is_spawn_simps)
qed

lemma run_pending_at:
  assumes "k < length cmds" and "all_clean pf w 0 (take k cmds)"
    and "settled (runSingleCommand pf (cmds ! k) (w k)) = Pending"
  shows "returned (runCommands pf w cmds T) = Pending"
proof -
  from run_reaches [OF assms(1,2), of T] obtain rs' tr' where
    "runCommands pf w cmds T = runCommands_loop pf w k (cmds ! k # drop (Suc k) cmds) rs' False tr'"
    by blast
  then show ?thesis using loop_pending [where w = w and i = k, OF assms(3)] by simp
qed

lemma run_rejected_at:
  assumes "k < length cmds" and "all_clean pf w 0 (take k cmds)"
    and "settled (runSingleCommand pf (cmds ! k) (w k)) = Rejected err"
  shows "returned (runCommands pf w cmds T) = Rejected err
         \<and> filter is_spawn (effects (runCommands pf w cmds T))
             = map (spawn_of pf) (take (Suc k) cmds)"
proof -
  from run_reaches [OF assms(1,2), of T] obtain rs' tr' where o:
    "runCommands pf w cmds T = runCommands_loop pf w k (cmds ! k # drop (Suc k) cmds) rs' False tr'"
    "length rs' = k" "filter is_spawn tr' = map (spawn_of pf) (take k cmds)"
    by blast
  show ?thesis
    using o loop_rejected [where w = w and i = k, OF assms(3)] chain_split(3) [OF assms(1)]
    by (simp add: filter_spawn_step_effects is_spawn_simps)
qed

section \<open>A deadline that fires\<close>

lemma sendJson_record:
  "sendJson code body
     = \<lparr> status = code, contentType = Some ''application/json'', payload = Some body \<rparr>"
  by (simp add: sendJson_def)

text \<open>
  C3, as the code has it. A request matches a route and passes its bearer check; steps 1
  to \<open>k - 1\<close> of the chain exit with code 0 with the timer not fired, and the timer
  fires while step \<open>k\<close> is in flight. If the child of step \<open>k\<close> then exits,
  \<open>runCommands\<close> returns with \<open>timedOut\<close> true and exactly \<open>k\<close> results, which echo
  the first \<open>k\<close> commands; \<open>spawn\<close> has been called for those commands and no other;
  the results are fewer than the commands unless step \<open>k\<close> is the last; and the
  response has status 200 and a JSON body whose \<open>timedOut\<close> is true. If that child
  never exits, \<open>runCommands\<close> never returns and no response is sent.
\<close>

theorem deadline_in_flight:
  assumes "findRoute cfg (case req_method req of None \<Rightarrow> ''GET'' | Some m \<Rightarrow> m) (pathname req)
             = Some route"
    and "bearerKey route = None \<or> bearerKey route = Some []
           \<or> getBearerToken req route = bearerKey route"
    and "0 < k" and "k \<le> length (commands route)"
    and "all_clean pf (world env) 0 (take (k - 1) (commands route))"
    and "fires_during (world env (k - 1))"
  shows "(exits (world env (k - 1)) \<longrightarrow>
           (\<exists>cr body.
              returned (runCommands pf (world env) (commands route) (timeoutMs route)) = Fulfilled cr
            \<and> timedOut cr
            \<and> length (results cr) = k
            \<and> map echo (results cr) = map (spec_of pf) (take k (commands route))
            \<and> filter is_spawn (effects (runCommands pf (world env) (commands route) (timeoutMs route)))
                = map (spawn_of pf) (take k (commands route))
            \<and> (k < length (commands route) \<longrightarrow> length (results cr) < length (commands route))
            \<and> (k = length (commands route) \<longrightarrow> length (results cr) = length (commands route))
            \<and> requestListener pf cfg env req
                = Some \<lparr> status = 200, contentType = Some ''application/json'', payload = Some body \<rparr>
            \<and> field body ''timedOut'' = Some (JBool True)))
       \<and> (\<not> exits (world env (k - 1)) \<longrightarrow>
            returned (runCommands pf (world env) (commands route) (timeoutMs route)) = Pending
          \<and> requestListener pf cfg env req = None)"
proof (intro conjI impI)
  let ?cmds = "commands route" and ?w = "world env"
  let ?run = "runCommands pf ?w ?cmds (timeoutMs route)"
  let ?s = "runSingleCommand pf (?cmds ! (k - 1)) (?w (k - 1))"
  from assms(3,4) have lt: "k - 1 < length ?cmds" and suc: "Suc (k - 1) = k" by simp_all
  have kill: "kill_sent ?s" using assms(6) by (rule rsc_fires)
  {
    assume "exits (?w (k - 1))"
    from rsc_exits [OF this] obtain r where r: "settled ?s = Fulfilled r" by blast
    from run_stops_at [OF lt assms(5) r disjI2 [OF kill], of "timeoutMs route"] obtain rs'
      where o: "returned ?run = Fulfilled \<lparr> results = rs' @ [r], timedOut = kill_sent ?s \<rparr>"
        "length rs' = k - 1"
        "filter is_spawn (effects ?run) = map (spawn_of pf) (take (Suc (k - 1)) ?cmds)"
      by blast
    let ?cr = "\<lparr> results = rs' @ [r], timedOut = True \<rparr>"
    have cr: "returned ?run = Fulfilled ?cr" using o(1) kill by simp
    have len: "length (results ?cr) = k" using o(2) assms(3) by simp
    from loop_shape [OF cr [unfolded runCommands_def]]
    have ech: "map echo (results ?cr) = map (spec_of pf) (take k ?cmds)"
      using len by auto
    have sp: "filter is_spawn (effects ?run) = map (spawn_of pf) (take k ?cmds)"
      using o(3) suc by simp
    let ?body = "JObj (route_body pf (startClock env) (endClock env) route ?cr)"
    have resp: "requestListener pf cfg env req
        = Some \<lparr> status = 200, contentType = Some ''application/json'', payload = Some ?body \<rparr>"
      using listener_runs_route [OF assms(1,2)] runRoute_fulfilled [OF cr]
      by (simp add: respond_def sendJson_record)
    have fld: "field ?body ''timedOut'' = Some (JBool True)"
      by (simp add: field_def body_fields)
    show "\<exists>cr body.
              returned ?run = Fulfilled cr
            \<and> timedOut cr
            \<and> length (results cr) = k
            \<and> map echo (results cr) = map (spec_of pf) (take k ?cmds)
            \<and> filter is_spawn (effects ?run) = map (spawn_of pf) (take k ?cmds)
            \<and> (k < length ?cmds \<longrightarrow> length (results cr) < length ?cmds)
            \<and> (k = length ?cmds \<longrightarrow> length (results cr) = length ?cmds)
            \<and> requestListener pf cfg env req
                = Some \<lparr> status = 200, contentType = Some ''application/json'', payload = Some body \<rparr>
            \<and> field body ''timedOut'' = Some (JBool True)"
      using cr len ech sp resp fld
      by (intro exI [of _ ?cr] exI [of _ ?body]) simp
  }
  {
    assume "\<not> exits (?w (k - 1))"
    with assms(6) have "settled ?s = Pending" by (rule rsc_never_exits)
    from run_pending_at [OF lt assms(5) this]
    show p: "returned ?run = Pending" .
    then show "requestListener pf cfg env req = None"
      using listener_runs_route [OF assms(1,2), of pf env]
      by (simp add: runRoute_def respond_def)
  }
qed

lemma run_hang:
  "returned (runCommands pf0 w_hang [sleep_cmd] 200) = Pending"
  by (simp add: runCommands_def runCommands_loop.simps Let_def w_hang_def env_hang_def
      runSingleCommand_def)

lemma find_slow:
  "findRoute cfg0 ''GET'' ''/slow'' = Some route_slow"
  by (simp add: findRoute_def cfg0_def route_webhook_def route_secure_def route_query_def
      route_slow_def)

lemma listener_hang:
  "requestListener pf0 cfg0 (env_of w_hang) req_slow = None"
proof -
  have "requestListener pf0 cfg0 (env_of w_hang) req_slow
      = respond (runRoute pf0 (env_of w_hang) route_slow)"
    by (rule listener_runs_route) (simp_all add: req_slow_def find_slow route_slow_def)
  also have "runRoute pf0 (env_of w_hang) route_slow = Pending"
    by (simp add: runRoute_def env_of_def route_slow_def run_hang)
  finally show ?thesis by (simp add: respond_def)
qed

text \<open>
  The claim of C3 as it is written fails in two ways. A chain of one command whose child
  is still running when the timer fires (timeout 200, the child closes at 230) returns
  that command's result: as many results as commands, not fewer. And when the child does
  not exit after the timer has fired, \<open>runCommands\<close> never returns and the request gets
  no response.
\<close>

theorem deadline_counterexample:
  "fires_during (w_killed 0)
   \<and> returned (runCommands pf0 w_killed [sleep_cmd] 200)
       = Fulfilled \<lparr> results = [res_killed], timedOut = True \<rparr>
   \<and> \<not> length [res_killed] < length [sleep_cmd]
   \<and> fires_during (w_hang 0)
   \<and> returned (runCommands pf0 w_hang [sleep_cmd] 200) = Pending
   \<and> requestListener pf0 cfg0 (env_of w_hang) req_slow = None"
  by (simp add: run_killed run_hang listener_hang)
    (simp add: fires_during_def w_killed_def env_killed_def w_hang_def env_hang_def)

lemma find_nightly:
  "findRoute cfg0 ''POST'' ''/nightly'' = Some route_nightly"
  by (simp add: findRoute_def cfg0_def route_webhook_def route_secure_def route_query_def
      route_slow_def route_deploy_def route_broken_def route_nightly_def)

theorem deadline_in_flight_witness:
  "findRoute cfg0 (case req_method req_nightly of None \<Rightarrow> ''GET'' | Some m \<Rightarrow> m)
       (pathname req_nightly) = Some route_nightly
   \<and> bearerKey route_nightly = None
   \<and> (0::nat) < 2 \<and> 2 \<le> length (commands route_nightly)
   \<and> all_clean pf0 (world (env_of w_ok_then_killed)) 0 (take (2 - 1) (commands route_nightly))
   \<and> fires_during (world (env_of w_ok_then_killed) (2 - 1))
   \<and> exits (world (env_of w_ok_then_killed) (2 - 1))
   \<and> (\<exists>cr body.
          returned (runCommands pf0 (world (env_of w_ok_then_killed)) (commands route_nightly)
              (timeoutMs route_nightly)) = Fulfilled cr
        \<and> timedOut cr
        \<and> length (results cr) = 2
        \<and> length (results cr) < length (commands route_nightly)
        \<and> filter is_spawn (effects (runCommands pf0 (world (env_of w_ok_then_killed))
              (commands route_nightly) (timeoutMs route_nightly)))
            = map (spawn_of pf0) (take 2 (commands route_nightly))
        \<and> requestListener pf0 cfg0 (env_of w_ok_then_killed) req_nightly
            = Some \<lparr> status = 200, contentType = Some ''application/json'', payload = Some body \<rparr>
        \<and> field body ''timedOut'' = Some (JBool True))"
proof -
  have f: "findRoute cfg0 (case req_method req_nightly of None \<Rightarrow> ''GET'' | Some m \<Rightarrow> m)
       (pathname req_nightly) = Some route_nightly"
    by (simp add: req_nightly_def find_nightly)
  have b: "bearerKey route_nightly = None" by (simp add: route_nightly_def)
  have k: "(0::nat) < 2" "2 \<le> length (commands route_nightly)"
    by (simp_all add: route_nightly_def)
  have lt: "2 < length (commands route_nightly)" by (simp add: route_nightly_def)
  have c: "all_clean pf0 (world (env_of w_ok_then_killed)) 0
      (take (2 - 1) (commands route_nightly))"
    by (simp add: route_nightly_def env_of_def clean_step_def w_ok_then_killed_def rsc_ok
        res_ok_def)
  have t: "fires_during (world (env_of w_ok_then_killed) (2 - 1))"
    by (simp add: env_of_def w_ok_then_killed_def fires_during_def env_killed_def)
  have e: "exits (world (env_of w_ok_then_killed) (2 - 1))"
    by (simp add: env_of_def w_ok_then_killed_def exits_def env_killed_def settling_def)
  from deadline_in_flight [OF f disjI1 [OF b] k c t] e lt
  have "\<exists>cr body.
          returned (runCommands pf0 (world (env_of w_ok_then_killed)) (commands route_nightly)
              (timeoutMs route_nightly)) = Fulfilled cr
        \<and> timedOut cr
        \<and> length (results cr) = 2
        \<and> length (results cr) < length (commands route_nightly)
        \<and> filter is_spawn (effects (runCommands pf0 (world (env_of w_ok_then_killed))
              (commands route_nightly) (timeoutMs route_nightly)))
            = map (spawn_of pf0) (take 2 (commands route_nightly))
        \<and> requestListener pf0 cfg0 (env_of w_ok_then_killed) req_nightly
            = Some \<lparr> status = 200, contentType = Some ''application/json'', payload = Some body \<rparr>
        \<and> field body ''timedOut'' = Some (JBool True)"
    by blast
  with f b k c t e show ?thesis by blast
qed

section \<open>Launch failures\<close>

text \<open>
  C6, as the code has it. A request matches a route and passes its bearer check, and the
  first \<open>k\<close> commands of the chain exit with code 0 with the timer not fired. When the
  next command cannot be launched and the platform says so by the child's \<open>error\<close>
  event, the chain returns \<open>k + 1\<close> results, the last with exit code null, and the
  response has status 200 and a JSON body whose \<open>successCount\<close> is \<open>k\<close>. When
  \<open>spawn\<close> throws instead, the chain is rejected with that error, there is no result,
  and the response has status 500 and the generic error body. Either way \<open>spawn\<close> is
  called for those \<open>k + 1\<close> commands only.
\<close>

theorem launch_failure_200_or_500:
  assumes "findRoute cfg (case req_method req of None \<Rightarrow> ''GET'' | Some m \<Rightarrow> m) (pathname req)
             = Some route"
    and "bearerKey route = None \<or> bearerKey route = Some []
           \<or> getBearerToken req route = bearerKey route"
    and "k < length (commands route)"
    and "all_clean pf (world env) 0 (take k (commands route))"
  shows "(launch_fails (world env k) \<longrightarrow>
           (\<exists>cr body.
              returned (runCommands pf (world env) (commands route) (timeoutMs route)) = Fulfilled cr
            \<and> length (results cr) = Suc k
            \<and> exitCode (last (results cr)) = None
            \<and> filter is_spawn (effects (runCommands pf (world env) (commands route) (timeoutMs route)))
                = map (spawn_of pf) (take (Suc k) (commands route))
            \<and> requestListener pf cfg env req
                = Some \<lparr> status = 200, contentType = Some ''application/json'', payload = Some body \<rparr>
            \<and> field body ''successCount'' = Some (JNum (real k))))
       \<and> (\<forall>err. spawned (world env k) = SpawnThrows err \<longrightarrow>
              returned (runCommands pf (world env) (commands route) (timeoutMs route)) = Rejected err
            \<and> filter is_spawn (effects (runCommands pf (world env) (commands route) (timeoutMs route)))
                = map (spawn_of pf) (take (Suc k) (commands route))
            \<and> requestListener pf cfg env req
                = Some \<lparr> status = 500, contentType = Some ''application/json'',
                         payload = Some (JObj [(''error'', JStr ''Internal Server Error'')]) \<rparr>)"
proof (intro conjI impI allI)
  let ?cmds = "commands route" and ?w = "world env"
  let ?run = "runCommands pf ?w ?cmds (timeoutMs route)"
  let ?s = "runSingleCommand pf (?cmds ! k) (?w k)"
  {
    assume "launch_fails (?w k)"
    from rsc_launch_fails [OF this, of pf "?cmds ! k"] obtain r
      where r: "settled ?s = Fulfilled r" "exitCode r = None"
      by blast
    then have stop: "exitCode r \<noteq> Some 0 \<or> kill_sent ?s" by simp
    from run_stops_at [OF assms(3,4) r(1) stop, of "timeoutMs route"] obtain rs'
      where o: "returned ?run = Fulfilled \<lparr> results = rs' @ [r], timedOut = kill_sent ?s \<rparr>"
        "length rs' = k"
        "filter is_spawn (effects ?run) = map (spawn_of pf) (take (Suc k) ?cmds)"
      by blast
    let ?cr = "\<lparr> results = rs' @ [r], timedOut = kill_sent ?s \<rparr>"
    from loop_shape [OF o(1) [unfolded runCommands_def]]
    have zero: "\<forall>x \<in> set rs'. exitCode x = Some 0" by auto
    have succ: "successes (results ?cr) = k"
      using successes_all [OF zero] r(2) o(2) by (simp add: successes_snoc)
    let ?body = "JObj (route_body pf (startClock env) (endClock env) route ?cr)"
    have resp: "requestListener pf cfg env req
        = Some \<lparr> status = 200, contentType = Some ''application/json'', payload = Some ?body \<rparr>"
      using listener_runs_route [OF assms(1,2)] runRoute_fulfilled [OF o(1)]
      by (simp add: respond_def sendJson_record)
    have fld: "field ?body ''successCount'' = Some (JNum (real k))"
      using succ by (simp add: field_def body_fields)
    show "\<exists>cr body.
              returned ?run = Fulfilled cr
            \<and> length (results cr) = Suc k
            \<and> exitCode (last (results cr)) = None
            \<and> filter is_spawn (effects ?run) = map (spawn_of pf) (take (Suc k) ?cmds)
            \<and> requestListener pf cfg env req
                = Some \<lparr> status = 200, contentType = Some ''application/json'', payload = Some body \<rparr>
            \<and> field body ''successCount'' = Some (JNum (real k))"
      using o r(2) resp fld
      by (intro exI [of _ ?cr] exI [of _ ?body]) simp
  }
  {
    fix err
    assume "spawned (?w k) = SpawnThrows err"
    from rsc_throws [OF this, of pf "?cmds ! k"] have "settled ?s = Rejected err" by simp
    from run_rejected_at [OF assms(3,4) this, of "timeoutMs route"]
    show rej: "returned ?run = Rejected err"
      and "filter is_spawn (effects ?run) = map (spawn_of pf) (take (Suc k) ?cmds)"
      by simp_all
    show "requestListener pf cfg env req
        = Some \<lparr> status = 500, contentType = Some ''application/json'',
                 payload = Some (JObj [(''error'', JStr ''Internal Server Error'')]) \<rparr>"
      using listener_runs_route [OF assms(1,2), of pf env] rej
      by (simp add: runRoute_def respond_def sendJson_record)
  }
qed

lemma run_ok_then_throws:
  "runCommands pf0 w_ok_then_throws [echo_cmd, empty_cmd, echo_cmd] 5000 =
     \<lparr> returned = Rejected ''ERR_INVALID_ARG_VALUE'',
       effects = [SetTimeout 5000, SpawnCall ''echo'' [''ok''] ''.'', OnCommandResult res_ok,
                  SpawnCall [] [] ''.'', ClearTimeout] \<rparr>"
proof -
  have e1: "runSingleCommand pf0 empty_cmd env_throws =
      \<lparr> out_buf = [], err_buf = [], kill_sent = False,
        settled = Rejected ''ERR_INVALID_ARG_VALUE'' \<rparr>"
    by (simp add: runSingleCommand_def Let_def env_throws_def)
  show ?thesis
    by (simp add: runCommands_def runCommands_loop.simps Let_def w_ok_then_throws_def
        rsc_ok e1 step_effects_def res_ok_def)
      (simp add: empty_cmd_def echo_cmd_def normalizeArgs_def String_def)
qed

lemma find_broken:
  "findRoute cfg0 ''POST'' ''/broken'' = Some route_broken"
  by (simp add: findRoute_def cfg0_def route_webhook_def route_secure_def route_query_def
      route_slow_def route_deploy_def route_broken_def)

lemma listener_broken:
  "requestListener pf0 cfg0 (env_of w_ok_then_throws) req_broken
     = Some \<lparr> status = 500, contentType = Some ''application/json'',
              payload = Some (JObj [(''error'', JStr ''Internal Server Error'')]) \<rparr>"
proof -
  have "requestListener pf0 cfg0 (env_of w_ok_then_throws) req_broken
      = respond (runRoute pf0 (env_of w_ok_then_throws) route_broken)"
    by (rule listener_runs_route) (simp_all add: req_broken_def find_broken route_broken_def)
  also have "runRoute pf0 (env_of w_ok_then_throws) route_broken
      = Rejected ''ERR_INVALID_ARG_VALUE''"
    by (simp add: runRoute_def env_of_def route_broken_def run_ok_then_throws)
  finally show ?thesis by (simp add: respond_def sendJson_def)
qed

text \<open>
  The claim of C6 as it is written fails: the second command of a chain has the empty
  string for executable, \<open>spawn\<close> throws on it, the chain is rejected with no result for
  that step, and the response has status 500, not 200.
\<close>

theorem launch_failure_500_counterexample:
  "command empty_cmd = []
   \<and> spawned (w_ok_then_throws 1) = SpawnThrows ''ERR_INVALID_ARG_VALUE''
   \<and> returned (runCommands pf0 w_ok_then_throws [echo_cmd, empty_cmd, echo_cmd] 5000)
       = Rejected ''ERR_INVALID_ARG_VALUE''
   \<and> requestListener pf0 cfg0 (env_of w_ok_then_throws) req_broken
       = Some \<lparr> status = 500, contentType = Some ''application/json'',
                payload = Some (JObj [(''error'', JStr ''Internal Server Error'')]) \<rparr>"
  by (simp add: run_ok_then_throws listener_broken)
    (simp add: empty_cmd_def w_ok_then_throws_def env_throws_def)

theorem launch_failure_200_or_500_witness:
  "findRoute cfg0 (case req_method req_deploy of None \<Rightarrow> ''GET'' | Some m \<Rightarrow> m)
       (pathname req_deploy) = Some route_deploy
   \<and> bearerKey route_deploy = Some []
   \<and> 1 < length (commands route_deploy)
   \<and> all_clean pf0 (world (env_of w_ok_then_enoent)) 0 (take 1 (commands route_deploy))
   \<and> launch_fails (world (env_of w_ok_then_enoent) 1)
   \<and> (\<exists>cr body.
           returned (runCommands pf0 (world (env_of w_ok_then_enoent)) (commands route_deploy)
               (timeoutMs route_deploy)) = Fulfilled cr
         \<and> length (results cr) = Suc 1
         \<and> exitCode (last (results cr)) = None
         \<and> filter is_spawn (effects (runCommands pf0 (world (env_of w_ok_then_enoent))
               (commands route_deploy) (timeoutMs route_deploy)))
             = map (spawn_of pf0) (take (Suc 1) (commands route_deploy))
         \<and> requestListener pf0 cfg0 (env_of w_ok_then_enoent) req_deploy
             = Some \<lparr> status = 200, contentType = Some ''application/json'', payload = Some body \<rparr>
         \<and> field body ''successCount'' = Some (JNum (real (1::nat))))"
proof -
  have f: "findRoute cfg0 (case req_method req_deploy of None \<Rightarrow> ''GET'' | Some m \<Rightarrow> m)
       (pathname req_deploy) = Some route_deploy"
    by (simp add: req_deploy_def find_deploy)
  have b: "bearerKey route_deploy = Some []" by (simp add: route_deploy_def)
  have n: "1 < length (commands route_deploy)" by (simp add: route_deploy_def)
  have c: "all_clean pf0 (world (env_of w_ok_then_enoent)) 0 (take 1 (commands route_deploy))"
    by (simp add: route_deploy_def env_of_def clean_step_def w_ok_then_enoent_def rsc_ok
        res_ok_def)
  have l: "launch_fails (world (env_of w_ok_then_enoent) 1)"
    by (simp add: env_of_def w_ok_then_enoent_def launch_fails_def env_enoent_def)
  from launch_failure_200_or_500 [OF f disjI2 [OF disjI1 [OF b]] n c] l
  have "\<exists>cr body.
           returned (runCommands pf0 (world (env_of w_ok_then_enoent)) (commands route_deploy)
               (timeoutMs route_deploy)) = Fulfilled cr
         \<and> length (results cr) = Suc 1
         \<and> exitCode (last (results cr)) = None
         \<and> filter is_spawn (effects (runCommands pf0 (world (env_of w_ok_then_enoent))
               (commands route_deploy) (timeoutMs route_deploy)))
             = map (spawn_of pf0) (take (Suc 1) (commands route_deploy))
         \<and> requestListener pf0 cfg0 (env_of w_ok_then_enoent) req_deploy
             = Some \<lparr> status = 200, contentType = Some ''application/json'', payload = Some body \<rparr>
         \<and> field body ''successCount'' = Some (JNum (real (1::nat)))"
    by blast
  with f b n c l show ?thesis by blast
qed


section \<open>The URL of the request\<close>

lemma listener_url_throws:
  "parseURL pf (case im_url msg of None \<Rightarrow> [] | Some u \<Rightarrow> u)
       (''http://'' @ (case im_host msg of None \<Rightarrow> ''undefined'' | Some h \<Rightarrow> h)) = Inl err \<Longrightarrow>
     createRequestListener pf cfg env msg = Uncaught err"
  by (simp add: createRequestListener_def)

lemma listener_url_parsed:
  "parseURL pf (case im_url msg of None \<Rightarrow> [] | Some u \<Rightarrow> u)
       (''http://'' @ (case im_host msg of None \<Rightarrow> ''undefined'' | Some h \<Rightarrow> h)) = Inr u \<Longrightarrow>
     createRequestListener pf cfg env msg = Handled (requestListener pf cfg env (request_of msg u))"
  by (simp add: createRequestListener_def)

text \<open>
  For a request whose URL is parsed: no route with this method and this pathname gives
  404 with an empty body, whatever the search parameters and the \<open>Authorization\<close>
  header; a route with this method and this pathname never gives 404.
\<close>

lemma unmatched_404:
  "findRoute cfg (case req_method req of None \<Rightarrow> ''GET'' | Some m \<Rightarrow> m) (pathname req) = None \<Longrightarrow>
     requestListener pf cfg env (req\<lparr>searchParams := q, authorization := a\<rparr>)
       = Some \<lparr> status = 404, contentType = None, payload = None \<rparr>"
  by (simp add: requestListener_def Let_def sendEmpty_def)

lemma matched_not_404:
  "findRoute cfg (case req_method req of None \<Rightarrow> ''GET'' | Some m \<Rightarrow> m) (pathname req) = Some route \<Longrightarrow>
     requestListener pf cfg env req \<noteq> Some (sendEmpty 404)
     \<and> (requestListener pf cfg env req = Some (sendEmpty 403)
        \<or> requestListener pf cfg env req = respond (runRoute pf env route))"
  by (cases "runRoute pf env route")
    (auto simp: requestListener_def Let_def sendEmpty_def respond_def sendJson_def)

lemma find_unknown:
  "findRoute cfg0 ''POST'' ''/webhook/'' = None"
  by (simp add: findRoute_def cfg0_def route_webhook_def route_secure_def route_query_def
      route_slow_def route_deploy_def route_broken_def route_nightly_def)

lemma listener_unknown_404:
  "createRequestListener pf0 cfg0 (env_of w_ok) msg_unknown
     = Handled (Some \<lparr> status = 404, contentType = None, payload = None \<rparr>)"
proof -
  have "createRequestListener pf0 cfg0 (env_of w_ok) msg_unknown
      = Handled (requestListener pf0 cfg0 (env_of w_ok) req_unknown)"
    by (simp add: createRequestListener_def msg_unknown_def pf0_def url0_def request_of_def
        req_unknown_def)
  moreover have "requestListener pf0 cfg0 (env_of w_ok)
        (req_unknown\<lparr>searchParams := searchParams req_unknown,
                     authorization := authorization req_unknown\<rparr>)
      = Some \<lparr> status = 404, contentType = None, payload = None \<rparr>"
    by (rule unmatched_404) (simp add: req_unknown_def find_unknown)
  ultimately show ?thesis by simp
qed

text \<open>
  C7. A request with the target \<open>//\<close> has no URL: \<open>new URL\<close> throws in the \<open>end\<close>
  handler before any route is looked up, nothing catches the error, and the handler
  sends no response, neither the 404 of an unmatched request nor any other.
\<close>

theorem url_throws_no_404:
  "im_url msg_no_host = Some ''//''
   \<and> findRoute cfg0 ''POST'' ''//'' = None
   \<and> parseURL pf0 ''//'' ''http://127.0.0.1:3000'' = Inl ''TypeError: Invalid URL''
   \<and> createRequestListener pf0 cfg0 (env_of w_ok) msg_no_host = Uncaught ''TypeError: Invalid URL''
   \<and> createRequestListener pf0 cfg0 (env_of w_ok) msg_no_host
       \<noteq> Handled (Some \<lparr> status = 404, contentType = None, payload = None \<rparr>)"
proof (intro conjI)
  show "im_url msg_no_host = Some ''//''" by (simp add: msg_no_host_def)
  show "findRoute cfg0 ''POST'' ''//'' = None"
    by (simp add: findRoute_def cfg0_def route_webhook_def route_secure_def route_query_def
        route_slow_def route_deploy_def route_broken_def route_nightly_def)
  show "parseURL pf0 ''//'' ''http://127.0.0.1:3000'' = Inl ''TypeError: Invalid URL''"
    by (simp add: pf0_def url0_def)
  show "createRequestListener pf0 cfg0 (env_of w_ok) msg_no_host
      = Uncaught ''TypeError: Invalid URL''"
    by (simp add: createRequestListener_def msg_no_host_def pf0_def url0_def)
  then show "createRequestListener pf0 cfg0 (env_of w_ok) msg_no_host
      \<noteq> Handled (Some \<lparr> status = 404, contentType = None, payload = None \<rparr>)"
    by simp
qed

text \<open>
  A request that matches: the whole handler parses the URL, finds the route, runs its
  one command and answers 200.
\<close>

lemma find_webhook:
  "findRoute cfg0 ''POST'' ''/webhook'' = Some route_webhook"
  by (simp add: findRoute_def cfg0_def route_webhook_def)

lemma run_webhook:
  "runCommands pf0 w_ok [echo_cmd] 5000 =
     \<lparr> returned = Fulfilled \<lparr> results = [res_ok], timedOut = False \<rparr>,
       effects = [SetTimeout 5000, SpawnCall ''echo'' [''ok''] ''.'', OnCommandResult res_ok,
                  ClearTimeout] \<rparr>"
  by (simp add: runCommands_def runCommands_loop.simps Let_def w_ok_def rsc_ok
      step_effects_def res_ok_def)
    (simp add: echo_cmd_def normalizeArgs_def String_def)

lemma listener_webhook_200:
  "createRequestListener pf0 cfg0 (env_of w_ok) msg_webhook
     = Handled (Some (sendJson 200 (JObj (route_body pf0 0 240 route_webhook
          \<lparr> results = [res_ok], timedOut = False \<rparr>))))"
proof -
  have "createRequestListener pf0 cfg0 (env_of w_ok) msg_webhook
      = Handled (requestListener pf0 cfg0 (env_of w_ok) req_webhook)"
    by (simp add: createRequestListener_def msg_webhook_def pf0_def url0_def request_of_def
        req_webhook_def)
  moreover have "requestListener pf0 cfg0 (env_of w_ok) req_webhook
      = respond (runRoute pf0 (env_of w_ok) route_webhook)"
    by (rule listener_runs_route) (simp_all add: req_webhook_def find_webhook route_webhook_def)
  moreover have "runRoute pf0 (env_of w_ok) route_webhook
      = Fulfilled (JObj (route_body pf0 0 240 route_webhook
          \<lparr> results = [res_ok], timedOut = False \<rparr>))"
    by (simp add: runRoute_def env_of_def route_webhook_def run_webhook)
  ultimately show ?thesis by (simp add: respond_def)
qed

end
